theory Spec2Isabelle
  imports Complex_Main "HOL-Library.Sublist"
begin

section \<open>The cross-thread bridge of \<open>webvfx/effects_impl.cpp\<close>\<close>

text \<open>
  \<open>EffectsImpl\<close> lets a worker thread drive a content object that lives on the
  application's UI thread. A public method called off the UI thread publishes a
  stack-allocated \<open>QMutex\<close>/\<open>QWaitCondition\<close> pair in two fields of the object,
  posts a queued invocation to the UI thread and blocks in \<open>QWaitCondition::wait\<close>;
  the UI thread runs the invocation and a completion slot wakes the caller.

  The embedding has three layers.
  \<^item> The data of the source: the fields of \<open>EffectsImpl\<close>, the observations the code
    makes of a \<open>QUrl\<close>, and what it asks of a \<open>Content\<close>.
  \<^item> The member functions, one definition each, as functions on the state.
  \<^item> A labelled step function that interleaves the threads: a caller entering a
    method, a caller reaching \<open>wait\<close>, a woken caller leaving, the UI thread's loop
    delivering the next posted event, and the content emitting a load signal.

  Qt itself is not part of the repository. What the code needs of \<open>QUrl\<close> and
  \<open>QFileInfo\<close>, and the content's \<open>renderContent\<close>, are parameters (the record
  \<open>env\<close>). The primitives the interleaving rests on are modelled as Qt documents them:
  a queued invocation is appended to the receiver's event queue and delivered in
  posting order by the loop of the UI thread; \<open>wait\<close> releases the mutex and blocks
  until \<open>wakeAll\<close> is called on the same condition; \<open>QMutexLocker\<close> blocks while
  another thread holds the mutex and does nothing for a null mutex; \<open>deleteLater\<close>
  posts a deferred-delete event; deleting a \<open>QObject\<close> discards the events still
  posted to it. The model covers an object whose events the UI thread delivers, as
  is the case from the \<open>moveToThread\<close> of \<open>initialize\<close> on. Dereferencing a null
  pointer, and calling into a deleted object, is a crash of the process.

  Granularity: a caller's way from the entry of a method to the posting of its
  invocation is one step, and so is the UI thread's execution of one invocation or
  one slot, which is enabled only when the mutex it locks is free. The two fields
  are therefore always written together. Every run of the model is a run of the
  code; the code has further runs, in which the unsynchronized writes of the two
  fields interleave.
\<close>

subsection \<open>Strings\<close>

type_synonym QString = string

text \<open>
  \<open>QString::endsWith(s, Qt::CaseInsensitive)\<close> compares case-folded characters. The
  three suffixes of the source are ASCII and no other character folds to one of
  their letters, so folding is modelled on the letters \<open>A\<close> to \<open>Z\<close> only.
\<close>

definition toLower :: "char \<Rightarrow> char" where
  "toLower c =
     (case map_of (zip ''ABCDEFGHIJKLMNOPQRSTUVWXYZ'' ''abcdefghijklmnopqrstuvwxyz'') c of
        None \<Rightarrow> c
      | Some l \<Rightarrow> l)"

definition endsWith_ci :: "QString \<Rightarrow> QString \<Rightarrow> bool" where
  "endsWith_ci s e = suffix (map toLower e) (map toLower s)"

subsection \<open>Data\<close>

datatype tid = Owner | Worker nat

text \<open>The observations the source makes of a \<open>QUrl\<close>.\<close>

record QUrl =
  url_scheme :: QString
  url_path :: QString
  url_isLocalFile :: bool
  url_isValid :: bool

type_synonym QSize = "int \<times> int"

record Image =
  width :: int
  height :: int

datatype variant = WebContent | QmlContent

datatype signal = contentPreLoadFinished | contentLoadFinished

text \<open>
  A content object as the bridge sees it: which class was constructed, with which
  size and \<open>Parameters*\<close> (an opaque handle), whether \<open>setTransparent\<close> was called,
  which of its signals are connected to \<open>initializeComplete\<close>, and the url it was
  asked to load.
\<close>

record Content =
  variant :: variant
  contentSize :: QSize
  parameters :: nat
  transparent :: bool
  connected :: "signal list"
  loading :: "QUrl option"

text \<open>
  The fields of \<open>EffectsImpl\<close>. The mutex and the wait condition a caller publishes
  are locals of that caller's stack frame, and a thread is in one call at a time:
  the address of either is identified with the thread.
\<close>

record EffectsImpl =
  content :: "Content option"
  mutex :: "tid option"
  waitCondition :: "tid option"
  initializeResult :: bool
  renderResult :: bool

datatype log_msg =
    LogWrongThread
  | LogInvalidURL QString
  | LogBadSuffix QString

text \<open>What the object does to its collaborators, in the order it does it.\<close>

datatype action =
    Log log_msg
  | MoveToThread
  | New variant QSize nat
  | SetTransparent
  | Connect signal
  | LoadContent QUrl
  | SetContentSize QSize
  | RenderContent real Image
  | Reload
  | WakeAll tid
  | DeleteContent

datatype event =
    EvInitialize QUrl QSize nat bool bool
  | EvRender real Image
  | EvReload
  | EvDeferredDelete

datatype call =
    C_initialize QString int int nat bool
  | C_render real Image
  | C_reload
  | C_destroy

datatype result = RBool bool | RVoid

text \<open>
  Where a thread stands: outside the object (\<open>Idle\<close>, or \<open>Done\<close> with the value its
  last call returned), inside the \<open>QMutexLocker\<close> scope with its invocation posted
  and its own mutex held (\<open>Holding\<close>), blocked in \<open>wait\<close> (\<open>Waiting\<close>), or woken and
  about to leave (\<open>Woken\<close>).
\<close>

datatype pc = Idle | Holding call | Waiting call | Woken call | Done result

record sys =
  impl :: EffectsImpl
  queue :: "event list"
  pcs :: "tid \<Rightarrow> pc"
  trace :: "action list"
  crashed :: bool
  deleted :: bool

text \<open>The parts of Qt and of the content classes the code calls into.\<close>

record env =
  QUrl_ctor :: "QString \<Rightarrow> QUrl"
  toString :: "QUrl \<Rightarrow> QString"
  toString_RemoveScheme :: "QUrl \<Rightarrow> QString"
  fromLocalFile :: "QString \<Rightarrow> QUrl"
  absoluteFilePath :: "QString \<Rightarrow> QString"
  renderContent :: "Content \<Rightarrow> real \<Rightarrow> Image \<Rightarrow> bool"

subsection \<open>Construction\<close>

text \<open>\<open>EffectsImpl::EffectsImpl()\<close>: every pointer null, both results false.\<close>

definition EffectsImpl_ctor :: EffectsImpl where
  "EffectsImpl_ctor =
     \<lparr>content = None, mutex = None, waitCondition = None,
      initializeResult = False, renderResult = False\<rparr>"

definition fresh :: sys where
  "fresh =
     \<lparr>impl = EffectsImpl_ctor, queue = [], pcs = (\<lambda>_. Idle), trace = [],
      crashed = False, deleted = False\<rparr>"

subsection \<open>Small steps shared by the member functions\<close>

definition onUIThread :: "tid \<Rightarrow> bool" where
  "onUIThread t = (t = Owner)"

definition emit_action :: "action \<Rightarrow> sys \<Rightarrow> sys" where
  "emit_action a s = s\<lparr>trace := trace s @ [a]\<rparr>"

definition crash :: "sys \<Rightarrow> sys" where
  "crash s = s\<lparr>crashed := True\<rparr>"

definition return :: "tid \<Rightarrow> result \<Rightarrow> sys \<Rightarrow> sys" where
  "return t r s = s\<lparr>pcs := (pcs s)(t := Done r)\<rparr>"

text \<open>Thread \<open>t\<close> holds its own mutex from the locker's construction to \<open>wait\<close>.\<close>

definition holds :: "sys \<Rightarrow> tid \<Rightarrow> bool" where
  "holds s t = (case pcs s t of Holding c \<Rightarrow> True | _ \<Rightarrow> False)"

text \<open>
  \<open>this->mutex = &mutex; this->waitCondition = &waitCondition;\<close> and the
  construction of the locker. The fields are overwritten whatever they hold.
\<close>

definition publish :: "tid \<Rightarrow> call \<Rightarrow> sys \<Rightarrow> sys" where
  "publish t c s =
     s\<lparr>impl := (impl s)\<lparr>mutex := Some t, waitCondition := Some t\<rparr>,
       pcs := (pcs s)(t := Holding c)\<rparr>"

text \<open>\<open>QMetaObject::invokeMethod(this, ..., Qt::QueuedConnection, ...)\<close>.\<close>

definition post :: "event \<Rightarrow> sys \<Rightarrow> sys" where
  "post ev s = s\<lparr>queue := queue s @ [ev]\<rparr>"

text \<open>
  \<open>waitCondition->wakeAll()\<close> on the condition of thread \<open>w\<close>: it wakes \<open>w\<close> if \<open>w\<close>
  is waiting, and is lost otherwise.
\<close>

definition wakeAll :: "tid \<Rightarrow> sys \<Rightarrow> sys" where
  "wakeAll w s =
     (let s1 = emit_action (WakeAll w) s in
      case pcs s1 w of
        Waiting c \<Rightarrow> s1\<lparr>pcs := (pcs s1)(w := Woken c)\<rparr>
      | _ \<Rightarrow> s1)"

subsection \<open>The completion slots\<close>

text \<open>
  A slot returns \<open>None\<close> when the UI thread would block in \<open>QMutexLocker\<close>: the step
  that runs it is not enabled until the caller has reached \<open>wait\<close>.

  \<open>initializeComplete\<close> (lines 85 to 90) dereferences \<open>waitCondition\<close> unguarded.
\<close>

definition initializeComplete :: "bool \<Rightarrow> sys \<Rightarrow> sys option" where
  "initializeComplete res s =
     (if (case mutex (impl s) of Some m \<Rightarrow> holds s m | None \<Rightarrow> False) then None
      else
        let s1 = s\<lparr>impl := (impl s)\<lparr>initializeResult := res\<rparr>\<rparr> in
        case waitCondition (impl s1) of
          None \<Rightarrow> Some (crash s1)
        | Some w \<Rightarrow> Some (wakeAll w s1))"

text \<open>\<open>renderComplete\<close> (lines 139 to 146) acts only when both pointers are set.\<close>

definition renderComplete :: "bool \<Rightarrow> sys \<Rightarrow> sys option" where
  "renderComplete res s =
     (case (mutex (impl s), waitCondition (impl s)) of
        (Some m, Some w) \<Rightarrow>
          if holds s m then None
          else Some (wakeAll w (s\<lparr>impl := (impl s)\<lparr>renderResult := res\<rparr>\<rparr>))
      | _ \<Rightarrow> Some s)"

subsection \<open>The invokables, run on the UI thread\<close>

text \<open>\<open>initializeInvokable\<close> (lines 169 to 203).\<close>

definition initializeInvokable ::
  "QUrl \<Rightarrow> QSize \<Rightarrow> nat \<Rightarrow> bool \<Rightarrow> bool \<Rightarrow> sys \<Rightarrow> sys" where
  "initializeInvokable url sz ps isPlain isTransparent s =
     (let path = url_path url;
          sig = (if isPlain then contentPreLoadFinished else contentLoadFinished);
          load = (\<lambda>c s0.
             emit_action (LoadContent url)
               (s0\<lparr>impl := (impl s0)\<lparr>content := Some (c\<lparr>loading := Some url\<rparr>)\<rparr>\<rparr>))
      in
      if endsWith_ci path ''.html'' \<or> endsWith_ci path ''.htm'' \<or> \<not> url_isLocalFile url
      then
        let webContent =
              \<lparr>variant = WebContent, contentSize = sz, parameters = ps,
               transparent = False, connected = [], loading = None\<rparr>;
            s1 = emit_action (New WebContent sz ps) s;
            (webContent, s2) =
              (if isTransparent
               then (webContent\<lparr>transparent := True\<rparr>, emit_action SetTransparent s1)
               else (webContent, s1));
            s3 = emit_action (Connect sig) s2
        in load (webContent\<lparr>connected := connected webContent @ [sig]\<rparr>) s3
      else if endsWith_ci path ''.qml''
      then
        let qmlContent =
              \<lparr>variant = QmlContent, contentSize = sz, parameters = ps,
               transparent = False, connected = [], loading = None\<rparr>;
            s1 = emit_action (New QmlContent sz ps) s;
            s2 = emit_action (Connect sig) s1
        in load (qmlContent\<lparr>connected := connected qmlContent @ [sig]\<rparr>) s2
      else emit_action (Log (LogBadSuffix path)) s)"

text \<open>\<open>renderInvokable\<close> (lines 205 to 209): \<open>content\<close> is dereferenced unchecked.\<close>

definition renderInvokable :: "env \<Rightarrow> real \<Rightarrow> Image \<Rightarrow> sys \<Rightarrow> sys option" where
  "renderInvokable e time renderImage s =
     (case content (impl s) of
        None \<Rightarrow> Some (crash s)
      | Some c \<Rightarrow>
          let sz = (width renderImage, height renderImage);
              c1 = c\<lparr>contentSize := sz\<rparr>;
              s1 = emit_action (SetContentSize sz) (s\<lparr>impl := (impl s)\<lparr>content := Some c1\<rparr>\<rparr>);
              res = renderContent e c1 time renderImage;
              s2 = emit_action (RenderContent time renderImage) s1
          in renderComplete res s2)"

text \<open>\<open>reloadInvokable\<close> (lines 211 to 214).\<close>

definition reloadInvokable :: "sys \<Rightarrow> sys" where
  "reloadInvokable s =
     (case content (impl s) of
        None \<Rightarrow> crash s
      | Some c \<Rightarrow> emit_action Reload s)"

text \<open>
  \<open>~EffectsImpl\<close> (lines 32 to 35) deletes the content; the \<open>QObject\<close> destructor
  that follows discards the events still posted to the object.
\<close>

definition EffectsImpl_dtor :: "sys \<Rightarrow> sys" where
  "EffectsImpl_dtor s =
     (let s1 = (case content (impl s) of None \<Rightarrow> s | Some c \<Rightarrow> emit_action DeleteContent s)
      in s1\<lparr>impl := (impl s1)\<lparr>content := None\<rparr>, queue := [], deleted := True\<rparr>)"

subsection \<open>The public methods, up to the point where the caller blocks or returns\<close>

text \<open>
  Lines 44 to 58 of \<open>initialize\<close>: the url the invocation is posted with and the
  plain flag, or \<open>None\<close> where the source logs \<open>Invalid URL\<close> and returns false.
\<close>

definition resolveUrl :: "env \<Rightarrow> QString \<Rightarrow> QUrl option \<times> bool" where
  "resolveUrl e fileName =
     (let url = QUrl_ctor e fileName;
          isPlain = (url_scheme url = ''plain'');
          url = (if isPlain then QUrl_ctor e (toString_RemoveScheme e url) else url)
      in
      if length (url_scheme url) < 2
      then
        let url = fromLocalFile e (absoluteFilePath e (toString e url)) in
        if \<not> url_isValid url then (None, isPlain) else (Some url, isPlain)
      else (Some url, isPlain))"

text \<open>\<open>initialize\<close>, lines 37 to 76.\<close>

definition initialize ::
  "env \<Rightarrow> tid \<Rightarrow> QString \<Rightarrow> int \<Rightarrow> int \<Rightarrow> nat \<Rightarrow> bool \<Rightarrow> sys \<Rightarrow> sys" where
  "initialize e t fileName w h ps isTransparent s =
     (if onUIThread t
      then return t (RBool False) (emit_action (Log LogWrongThread) s)
      else
        case resolveUrl e fileName of
          (None, isPlain) \<Rightarrow>
            return t (RBool False) (emit_action (Log (LogInvalidURL fileName)) s)
        | (Some url, isPlain) \<Rightarrow>
            post (EvInitialize url (w, h) ps isPlain isTransparent)
              (emit_action MoveToThread
                 (publish t (C_initialize fileName w h ps isTransparent) s)))"

text \<open>
  \<open>render\<close>, lines 114 to 131. On the UI thread the whole call is one step, and it
  returns the field \<open>renderResult\<close> (line 136).
\<close>

definition render :: "env \<Rightarrow> tid \<Rightarrow> real \<Rightarrow> Image \<Rightarrow> sys \<Rightarrow> sys option" where
  "render e t time renderImage s =
     (if onUIThread t
      then
        (case renderInvokable e time renderImage s of
           None \<Rightarrow> None
         | Some s1 \<Rightarrow>
             Some (if crashed s1 then s1
                   else return t (RBool (renderResult (impl s1))) s1))
      else Some (post (EvRender time renderImage) (publish t (C_render time renderImage) s)))"

text \<open>\<open>reload\<close>, lines 148 to 162.\<close>

definition reload :: "tid \<Rightarrow> sys \<Rightarrow> sys" where
  "reload t s =
     (if onUIThread t
      then (let s1 = reloadInvokable s in if crashed s1 then s1 else return t RVoid s1)
      else post EvReload (publish t C_reload s))"

text \<open>\<open>destroy\<close>, lines 92 to 95: \<open>deleteLater()\<close> and nothing else.\<close>

definition destroy :: "tid \<Rightarrow> sys \<Rightarrow> sys" where
  "destroy t s = return t RVoid (post EvDeferredDelete s)"

text \<open>
  What a woken caller does on its way out (lines 79 to 82, 132 to 136, 163 to
  166): it clears both fields and returns the result field of its method.
\<close>

definition result_of :: "call \<Rightarrow> EffectsImpl \<Rightarrow> result" where
  "result_of c i =
     (case c of
        C_initialize f w h ps tr \<Rightarrow> RBool (initializeResult i)
      | C_render time img \<Rightarrow> RBool (renderResult i)
      | C_reload \<Rightarrow> RVoid
      | C_destroy \<Rightarrow> RVoid)"

definition leave :: "tid \<Rightarrow> call \<Rightarrow> sys \<Rightarrow> sys" where
  "leave t c s =
     (let s1 = s\<lparr>impl := (impl s)\<lparr>mutex := None, waitCondition := None\<rparr>\<rparr>
      in return t (result_of c (impl s1)) s1)"

subsection \<open>The interleaving\<close>

datatype label =
    Call tid call
  | Wait tid
  | Resume tid
  | Dispatch
  | Emit signal bool

definition callable :: "pc \<Rightarrow> bool" where
  "callable p = (case p of Idle \<Rightarrow> True | Done r \<Rightarrow> True | _ \<Rightarrow> False)"

definition dispatch :: "env \<Rightarrow> event \<Rightarrow> sys \<Rightarrow> sys option" where
  "dispatch e ev s =
     (case ev of
        EvInitialize url sz ps isPlain isTransparent \<Rightarrow>
          Some (initializeInvokable url sz ps isPlain isTransparent s)
      | EvRender time img \<Rightarrow> renderInvokable e time img s
      | EvReload \<Rightarrow> Some (reloadInvokable s)
      | EvDeferredDelete \<Rightarrow> Some (EffectsImpl_dtor s))"

text \<open>
  One step of the system. \<open>None\<close>: the step is not enabled (the thread is not at
  that point, the queue is empty, the object is gone, the UI thread would block on
  a held mutex, or the process has crashed). An event whose execution would block
  stays in the queue.
\<close>

definition step :: "env \<Rightarrow> label \<Rightarrow> sys \<Rightarrow> sys option" where
  "step e l s =
     (if crashed s then None
      else
        case l of
          Call t c \<Rightarrow>
            if \<not> callable (pcs s t) then None
            else if deleted s then Some (crash s)
            else
              (case c of
                 C_initialize f w h ps tr \<Rightarrow> Some (initialize e t f w h ps tr s)
               | C_render time img \<Rightarrow> render e t time img s
               | C_reload \<Rightarrow> Some (reload t s)
               | C_destroy \<Rightarrow> Some (destroy t s))
        | Wait t \<Rightarrow>
            (case pcs s t of
               Holding c \<Rightarrow> Some (s\<lparr>pcs := (pcs s)(t := Waiting c)\<rparr>)
             | _ \<Rightarrow> None)
        | Resume t \<Rightarrow>
            (case pcs s t of
               Woken c \<Rightarrow> Some (leave t c s)
             | _ \<Rightarrow> None)
        | Dispatch \<Rightarrow>
            if deleted s then None
            else
              (case queue s of
                 [] \<Rightarrow> None
               | ev # q \<Rightarrow> dispatch e ev (s\<lparr>queue := q\<rparr>))
        | Emit sig b \<Rightarrow>
            if deleted s then None
            else
              (case content (impl s) of
                 None \<Rightarrow> None
               | Some c \<Rightarrow>
                   if sig \<in> set (connected c) then initializeComplete b s else Some s))"

fun exec :: "env \<Rightarrow> label list \<Rightarrow> sys \<Rightarrow> sys option" where
  "exec e [] s = Some s"
| "exec e (l # ls) s = (case step e l s of None \<Rightarrow> None | Some s1 \<Rightarrow> exec e ls s1)"

text \<open>
  An environment to evaluate the model at concrete inputs. It stands in for Qt in
  the closed examples only; every general theorem quantifies over the environment.
\<close>

definition example_QUrl :: "QString \<Rightarrow> QUrl" where
  "example_QUrl s =
     (if CHR '':'' \<in> set s
      then
        let sch = map toLower (takeWhile (\<lambda>c. c \<noteq> CHR '':'') s) in
        \<lparr>url_scheme = sch, url_path = tl (dropWhile (\<lambda>c. c \<noteq> CHR '':'') s),
         url_isLocalFile = (sch = ''file''), url_isValid = True\<rparr>
      else
        \<lparr>url_scheme = [], url_path = s, url_isLocalFile = False, url_isValid = (s \<noteq> [])\<rparr>)"

definition example_env :: env where
  "example_env =
     \<lparr>QUrl_ctor = example_QUrl,
      toString = (\<lambda>u. if url_scheme u = [] then url_path u
                        else url_scheme u @ '':'' @ url_path u),
      toString_RemoveScheme = url_path,
      fromLocalFile = (\<lambda>p.
        \<lparr>url_scheme = (if p = [] then [] else ''file''), url_path = p,
         url_isLocalFile = (p \<noteq> []), url_isValid = (p \<noteq> [])\<rparr>),
      absoluteFilePath = (\<lambda>p.
        if p = [] then [] else if hd p = CHR ''/'' then p else ''/cwd/'' @ p),
      renderContent = (\<lambda>c time img. True)\<rparr>"

definition example_qml :: QUrl where
  "example_qml =
     \<lparr>url_scheme = ''file'', url_path = ''/v/Scene.QML'', url_isLocalFile = True,
      url_isValid = True\<rparr>"

definition example_remote :: QUrl where
  "example_remote =
     \<lparr>url_scheme = ''http'', url_path = ''/feed'', url_isLocalFile = False,
      url_isValid = True\<rparr>"

text \<open>A state in which worker 0 is blocked in \<open>wait\<close> inside \<open>initialize\<close>.\<close>

definition example_waiting :: sys where
  "example_waiting =
     fresh\<lparr>impl := EffectsImpl_ctor\<lparr>mutex := Some (Worker 0), waitCondition := Some (Worker 0)\<rparr>,
           pcs := (\<lambda>_. Idle)(Worker 0 := Waiting (C_initialize ''/v/Scene.QML'' 640 480 0 False))\<rparr>"

subsection \<open>Observations used in the statements\<close>

text \<open>The actions a run from \<open>s\<close> to \<open>s'\<close> added to the trace.\<close>

definition appended :: "sys \<Rightarrow> sys \<Rightarrow> action list" where
  "appended s s' = drop (length (trace s)) (trace s')"

definition is_New :: "action \<Rightarrow> bool" where
  "is_New a = (case a of New v sz ps \<Rightarrow> True | _ \<Rightarrow> False)"

text \<open>A bridge initialized by worker 0 with \<open>a.html\<close>, and how it got there.\<close>

definition example_image :: Image where
  "example_image = \<lparr>width = 4, height = 3\<rparr>"

definition example_setup :: "label list" where
  "example_setup =
     [Call (Worker 0) (C_initialize ''a.html'' 640 480 0 False), Wait (Worker 0), Dispatch,
      Emit contentLoadFinished True, Resume (Worker 0)]"

definition example_loaded :: Content where
  "example_loaded =
     \<lparr>variant = WebContent, contentSize = (640, 480), parameters = 0, transparent = False,
      connected = [contentLoadFinished],
      loading = Some \<lparr>url_scheme = ''file'', url_path = ''/cwd/a.html'',
                      url_isLocalFile = True, url_isValid = True\<rparr>\<rparr>"

definition example_ready :: sys where
  "example_ready =
     \<lparr>impl = \<lparr>content = Some example_loaded, mutex = None, waitCondition = None,
              initializeResult = True, renderResult = False\<rparr>,
      queue = [],
      pcs = (\<lambda>_. Idle)(Worker 0 := Done (RBool True)),
      trace = [MoveToThread, New WebContent (640, 480) 0, Connect contentLoadFinished,
               LoadContent \<lparr>url_scheme = ''file'', url_path = ''/cwd/a.html'',
                             url_isLocalFile = True, url_isValid = True\<rparr>,
               WakeAll (Worker 0)],
      crashed = False, deleted = False\<rparr>"

subsection \<open>A caller that can no longer be woken\<close>

text \<open>
  Thread \<open>a\<close> is blocked in \<open>wait\<close>, and either the object's \<open>waitCondition\<close> field no
  longer points to its condition, or it does but there is no content to complete
  anything and nothing but deferred deletes in the queue.
\<close>

definition stranded :: "tid \<Rightarrow> call \<Rightarrow> sys \<Rightarrow> bool" where
  "stranded a c s =
     (pcs s a = Waiting c \<and>
      (waitCondition (impl s) = Some a \<longrightarrow>
         content (impl s) = None \<and> set (queue s) \<subseteq> {EvDeferredDelete}))"

subsection \<open>Runs of synchronized callers\<close>

text \<open>
  The steps that are neither a new call nor a signal of the content: a caller
  reaching \<open>wait\<close>, a woken caller leaving, and the UI thread's loop delivering.
\<close>

definition internal :: "label \<Rightarrow> bool" where
  "internal l = (case l of Wait t \<Rightarrow> True | Resume t \<Rightarrow> True | Dispatch \<Rightarrow> True | _ \<Rightarrow> False)"

text \<open>
  One marshaled \<open>render\<close> run to its end, and several of them run one after the
  other.
\<close>

type_synonym render_call = "tid \<times> real \<times> Image"

definition render_run :: "render_call \<Rightarrow> label list" where
  "render_run rc =
     (case rc of (t, time, img) \<Rightarrow> [Call t (C_render time img), Wait t, Dispatch, Resume t])"

definition serial :: "render_call list \<Rightarrow> label list" where
  "serial cs = concat (map render_run cs)"

text \<open>No thread is inside the object and nothing is queued.\<close>

definition quiet :: "sys \<Rightarrow> bool" where
  "quiet s =
     (\<not> crashed s \<and> \<not> deleted s \<and> queue s = [] \<and> (\<forall>u. callable (pcs s u)))"

subsection \<open>What is written to \<open>renderResult\<close>\<close>

text \<open>
  The value step \<open>l\<close> stores in \<open>renderResult\<close> when taken in \<open>s\<close>, if it stores one: a
  \<open>renderInvokable\<close> that runs while both fields are set, be it delivered from the
  queue or called by \<open>render\<close> on the UI thread. \<open>stores\<close> lists the values stored
  along a run.
\<close>

definition stored :: "env \<Rightarrow> label \<Rightarrow> sys \<Rightarrow> bool option" where
  "stored e l s =
     (if deleted s \<or> mutex (impl s) = None \<or> waitCondition (impl s) = None then None
      else
        case content (impl s) of
          None \<Rightarrow> None
        | Some c \<Rightarrow>
            (case l of
               Dispatch \<Rightarrow>
                 (case queue s of
                    EvRender time img # q \<Rightarrow>
                      Some (renderContent e (c\<lparr>contentSize := (width img, height img)\<rparr>) time img)
                  | _ \<Rightarrow> None)
             | Call t cl \<Rightarrow>
                 (case cl of
                    C_render time img \<Rightarrow>
                      if onUIThread t
                      then Some (renderContent e
                                   (c\<lparr>contentSize := (width img, height img)\<rparr>) time img)
                      else None
                  | _ \<Rightarrow> None)
             | _ \<Rightarrow> None))"

fun stores :: "env \<Rightarrow> label list \<Rightarrow> sys \<Rightarrow> bool list" where
  "stores e [] s = []"
| "stores e (l # ls) s =
     (case step e l s of
        None \<Rightarrow> []
      | Some s1 \<Rightarrow> (case stored e l s of None \<Rightarrow> [] | Some v \<Rightarrow> [v]) @ stores e ls s1)"

text \<open>A \<open>render\<close> entered off the UI thread.\<close>

definition marshaled_render :: "label \<Rightarrow> bool" where
  "marshaled_render l =
     (case l of
        Call t cl \<Rightarrow> (case cl of C_render time img \<Rightarrow> \<not> onUIThread t | _ \<Rightarrow> False)
      | _ \<Rightarrow> False)"

text \<open>
  A worker's \<open>reload\<close> during which the UI thread calls \<open>render\<close> itself.
\<close>

definition example_owner_store :: "label list" where
  "example_owner_store =
     [Call (Worker 0) C_reload, Wait (Worker 0), Dispatch,
      Call Owner (C_render 0 example_image), Resume (Worker 0)]"

section \<open>Properties\<close>

subsection \<open>Suffixes\<close>

lemma lower_html: "map toLower ''.html'' = ''.html''" by (simp add: toLower_def)
lemma lower_htm: "map toLower ''.htm'' = ''.htm''" by (simp add: toLower_def)
lemma lower_qml: "map toLower ''.qml'' = ''.qml''" by (simp add: toLower_def)

lemma qml_not_html: "endsWith_ci p ''.qml'' \<Longrightarrow> \<not> endsWith_ci p ''.html'' \<and> \<not> endsWith_ci p ''.htm''"
  unfolding endsWith_ci_def lower_html lower_htm lower_qml
proof (intro conjI notI)
  assume a: "suffix ''.qml'' (map toLower p)"
  { assume b: "suffix ''.html'' (map toLower p)"
    from suffix_same_cases[OF a b] show False by (simp add: suffix_to_prefix) }
  { assume b: "suffix ''.htm'' (map toLower p)"
    from suffix_same_cases[OF a b] show False by (simp add: suffix_to_prefix) }
qed

subsection \<open>What \<open>initializeInvokable\<close> does in each branch\<close>

lemma initializeInvokable_web:
  "endsWith_ci (url_path url) ''.html'' \<or> endsWith_ci (url_path url) ''.htm'' \<or> \<not> url_isLocalFile url \<Longrightarrow>
   initializeInvokable url sz ps isPlain tr s =
     s\<lparr>impl := (impl s)\<lparr>content := Some \<lparr>variant = WebContent, contentSize = sz, parameters = ps,
               transparent = tr, connected = [if isPlain then contentPreLoadFinished else contentLoadFinished], loading = Some url\<rparr>\<rparr>,
       trace := trace s @ [New WebContent sz ps] @ (if tr then [SetTransparent] else []) @
          [Connect (if isPlain then contentPreLoadFinished else contentLoadFinished), LoadContent url]\<rparr>"
  by (simp add: initializeInvokable_def emit_action_def Let_def)

lemma initializeInvokable_qml:
  "url_isLocalFile url \<Longrightarrow> endsWith_ci (url_path url) ''.qml'' \<Longrightarrow>
   initializeInvokable url sz ps isPlain tr s =
     s\<lparr>impl := (impl s)\<lparr>content := Some \<lparr>variant = QmlContent, contentSize = sz, parameters = ps,
               transparent = False, connected = [if isPlain then contentPreLoadFinished else contentLoadFinished], loading = Some url\<rparr>\<rparr>,
       trace := trace s @ [New QmlContent sz ps,
          Connect (if isPlain then contentPreLoadFinished else contentLoadFinished), LoadContent url]\<rparr>"
  using qml_not_html[of "url_path url"]
  by (simp add: initializeInvokable_def emit_action_def Let_def)

lemma initializeInvokable_bad:
  "url_isLocalFile url \<Longrightarrow> \<not> endsWith_ci (url_path url) ''.html'' \<Longrightarrow> \<not> endsWith_ci (url_path url) ''.htm'' \<Longrightarrow>
   \<not> endsWith_ci (url_path url) ''.qml'' \<Longrightarrow>
   initializeInvokable url sz ps isPlain tr s = s\<lparr>trace := trace s @ [Log (LogBadSuffix (url_path url))]\<rparr>"
  by (simp add: initializeInvokable_def emit_action_def Let_def)


subsection \<open>Steps that change the variant\<close>

lemmas member_defs =
  emit_action_def crash_def return_def holds_def publish_def post_def wakeAll_def
  initializeComplete_def renderComplete_def renderInvokable_def reloadInvokable_def
  EffectsImpl_dtor_def initialize_def render_def reload_def destroy_def leave_def
  dispatch_def

lemma variant_step:
  assumes "step e l s1 = Some s2"
    and "map_option variant (content (impl s2)) \<noteq> map_option variant (content (impl s1))"
  shows "l = Dispatch \<and>
         (\<exists>q. (\<exists>u z n b1 b2. queue s1 = EvInitialize u z n b1 b2 # q) \<or> queue s1 = EvDeferredDelete # q)"
  using assms
  by (cases l)
     (auto simp: step_def member_defs Let_def
           split: if_splits call.splits pc.splits list.splits event.splits option.splits prod.splits)

lemma example_qml_is_qml: "url_isLocalFile example_qml \<and> endsWith_ci (url_path example_qml) ''.qml''"
    by (simp add: example_qml_def endsWith_ci_def toLower_def suffix_to_prefix)
lemma example_remote_not_local: "\<not> url_isLocalFile example_remote"
    by (simp add: example_remote_def)
lemma example_qml_lower: "map toLower (url_path (example_qml\<lparr>url_path := ''/v/scene.qml''\<rparr>)) =
             map toLower (url_path example_qml) \<and>
           url_isLocalFile (example_qml\<lparr>url_path := ''/v/scene.qml''\<rparr>) =
             url_isLocalFile example_qml"
    by (simp add: example_qml_def toLower_def)


lemma example_dispatch_initialize:
  "step example_env Dispatch
     (fresh\<lparr>queue := [EvInitialize example_qml (640, 480) 0 False False]\<rparr>) =
     Some (initializeInvokable example_qml (640, 480) 0 False False fresh) \<and>
   map_option variant
     (content (impl (fresh\<lparr>queue := [EvInitialize example_qml (640, 480) 0 False False]\<rparr>))) =
     None"
  by (simp add: step_def dispatch_def fresh_def EffectsImpl_ctor_def)

subsection \<open>Variant selection\<close>

text \<open>
  Claim C5. The class of the content that \<open>initializeInvokable\<close> constructs is a
  function of the path's suffix, compared without regard to case, and of whether
  the url is a local file: \<open>.html\<close>, \<open>.htm\<close> or a url that is not a local file gives
  a \<open>WebContent\<close>; \<open>.qml\<close> on a local file gives a \<open>QmlContent\<close>. One content is
  constructed per invocation. Afterwards no step of the system changes the variant
  of the content the object points to, other than the delivery of another
  \<open>initializeInvokable\<close> or of the deferred delete.
\<close>

theorem variant_selection:
  "((endsWith_ci (url_path url) ''.html'' \<or> endsWith_ci (url_path url) ''.htm'' \<or>
       \<not> url_isLocalFile url) \<longrightarrow>
      map_option variant (content (impl (initializeInvokable url sz ps isPlain tr s))) =
        Some WebContent \<and>
      filter is_New (appended s (initializeInvokable url sz ps isPlain tr s)) =
        [New WebContent sz ps]) \<and>
   (url_isLocalFile url \<and> endsWith_ci (url_path url) ''.qml'' \<longrightarrow>
      map_option variant (content (impl (initializeInvokable url sz ps isPlain tr s))) =
        Some QmlContent \<and>
      filter is_New (appended s (initializeInvokable url sz ps isPlain tr s)) =
        [New QmlContent sz ps]) \<and>
   (\<forall>url'. map toLower (url_path url') = map toLower (url_path url) \<and>
           url_isLocalFile url' = url_isLocalFile url \<longrightarrow>
      map_option variant (content (impl (initializeInvokable url' sz ps isPlain tr s))) =
      map_option variant (content (impl (initializeInvokable url sz ps isPlain tr s)))) \<and>
   (\<forall>e l s1 s2.
      step e l s1 = Some s2 \<and>
      map_option variant (content (impl s2)) \<noteq> map_option variant (content (impl s1)) \<longrightarrow>
      l = Dispatch \<and>
      (\<exists>q. (\<exists>u z n b1 b2. queue s1 = EvInitialize u z n b1 b2 # q) \<or>
           queue s1 = EvDeferredDelete # q))"
proof (intro conjI allI impI)
  assume "endsWith_ci (url_path url) ''.html'' \<or> endsWith_ci (url_path url) ''.htm'' \<or>
       \<not> url_isLocalFile url"
  from initializeInvokable_web[OF this]
  show "map_option variant (content (impl (initializeInvokable url sz ps isPlain tr s))) =
        Some WebContent"
    and "filter is_New (appended s (initializeInvokable url sz ps isPlain tr s)) =
        [New WebContent sz ps]"
    by (simp_all add: appended_def is_New_def)
next
  assume "url_isLocalFile url \<and> endsWith_ci (url_path url) ''.qml''"
  then have "url_isLocalFile url" "endsWith_ci (url_path url) ''.qml''" by simp_all
  from initializeInvokable_qml[OF this]
  show "map_option variant (content (impl (initializeInvokable url sz ps isPlain tr s))) =
        Some QmlContent"
    and "filter is_New (appended s (initializeInvokable url sz ps isPlain tr s)) =
        [New QmlContent sz ps]"
    by (simp_all add: appended_def is_New_def)
next
  fix url' :: QUrl
  assume "map toLower (url_path url') = map toLower (url_path url) \<and>
           url_isLocalFile url' = url_isLocalFile url"
  then show "map_option variant (content (impl (initializeInvokable url' sz ps isPlain tr s))) =
      map_option variant (content (impl (initializeInvokable url sz ps isPlain tr s)))"
    by (simp add: initializeInvokable_def endsWith_ci_def emit_action_def Let_def)
next
  fix e l and s1 s2 :: sys
  assume "step e l s1 = Some s2 \<and>
      map_option variant (content (impl s2)) \<noteq> map_option variant (content (impl s1))"
  then show "l = Dispatch"
    and "\<exists>q. (\<exists>u z n b1 b2. queue s1 = EvInitialize u z n b1 b2 # q) \<or>
           queue s1 = EvDeferredDelete # q"
    using variant_step[of e l s1 s2] by simp_all
qed


theorem variant_selection_witness:
  "url_isLocalFile example_qml \<and> endsWith_ci (url_path example_qml) ''.qml'' \<and>
   map_option variant
     (content (impl (initializeInvokable example_qml (640, 480) 0 False False fresh))) =
     Some QmlContent \<and>
   \<not> url_isLocalFile example_remote \<and>
   map_option variant
     (content (impl (initializeInvokable example_remote (640, 480) 0 False False fresh))) =
     Some WebContent \<and>
   map_option variant
     (content (impl (initializeInvokable (example_qml\<lparr>url_path := ''/v/scene.qml''\<rparr>)
        (640, 480) 0 False False fresh))) = Some QmlContent \<and>
   step example_env Dispatch
     (fresh\<lparr>queue := [EvInitialize example_qml (640, 480) 0 False False]\<rparr>) =
     Some (initializeInvokable example_qml (640, 480) 0 False False fresh) \<and>
   map_option variant
     (content (impl (initializeInvokable example_qml (640, 480) 0 False False fresh))) \<noteq>
   map_option variant
     (content (impl (fresh\<lparr>queue := [EvInitialize example_qml (640, 480) 0 False False]\<rparr>))) \<and>
   (\<exists>q. (\<exists>u z n b1 b2.
           queue (fresh\<lparr>queue := [EvInitialize example_qml (640, 480) 0 False False]\<rparr>) =
             EvInitialize u z n b1 b2 # q) \<or>
        queue (fresh\<lparr>queue := [EvInitialize example_qml (640, 480) 0 False False]\<rparr>) =
          EvDeferredDelete # q)"
proof -
  note T = variant_selection[of example_qml "(640, 480)" 0 False False fresh]
  note w1 = T[THEN conjunct2, THEN conjunct1, THEN mp, OF example_qml_is_qml, THEN conjunct1]
  note w2 = variant_selection[of example_remote "(640, 480)" 0 False False fresh,
      THEN conjunct1, THEN mp, OF disjI2, OF disjI2, OF example_remote_not_local, THEN conjunct1]
  note w3 = T[THEN conjunct2, THEN conjunct2, THEN conjunct1, THEN spec, THEN mp,
      OF example_qml_lower]
  from example_dispatch_initialize w1
  have st: "step example_env Dispatch
     (fresh\<lparr>queue := [EvInitialize example_qml (640, 480) 0 False False]\<rparr>) =
     Some (initializeInvokable example_qml (640, 480) 0 False False fresh) \<and>
   map_option variant
     (content (impl (initializeInvokable example_qml (640, 480) 0 False False fresh))) \<noteq>
   map_option variant
     (content (impl (fresh\<lparr>queue := [EvInitialize example_qml (640, 480) 0 False False]\<rparr>)))"
    by auto
  note w4 = T[THEN conjunct2, THEN conjunct2, THEN conjunct2, THEN spec, THEN spec, THEN spec,
      THEN spec, THEN mp, OF st, THEN conjunct2]
  from example_qml_is_qml[THEN conjunct1] example_qml_is_qml[THEN conjunct2]
    example_remote_not_local w1 w2 trans[OF w3 w1] st[THEN conjunct1] st[THEN conjunct2] w4
  show ?thesis
    by - (intro conjI; assumption)
qed

subsection \<open>Wiring of the completion signal\<close>

text \<open>
  Claim C3. Whenever \<open>initializeInvokable\<close> starts a load, it has connected one
  signal of the content to \<open>initializeComplete\<close> before it calls \<open>loadContent\<close>:
  \<open>contentPreLoadFinished\<close> when \<open>isPlain\<close> is true, \<open>contentLoadFinished\<close> when it is
  false, and never the other one. This holds for a \<open>WebContent\<close> and for a
  \<open>QmlContent\<close>. A caller blocked in \<open>initialize\<close> is woken, with the signal's
  argument as the result, when the content emits the connected signal; the other
  signal changes nothing.
\<close>

theorem completion_wired_before_load:
  "trace (initializeInvokable url sz ps isPlain tr s) =
     trace s @ appended s (initializeInvokable url sz ps isPlain tr s) \<and>
   (LoadContent url \<in> set (appended s (initializeInvokable url sz ps isPlain tr s)) \<longrightarrow>
      Connect (if isPlain then contentPreLoadFinished else contentLoadFinished) \<in>
        set (takeWhile (\<lambda>a. a \<noteq> LoadContent url)
               (appended s (initializeInvokable url sz ps isPlain tr s))) \<and>
      Connect (if isPlain then contentLoadFinished else contentPreLoadFinished) \<notin>
        set (appended s (initializeInvokable url sz ps isPlain tr s)) \<and>
      (\<exists>c. content (impl (initializeInvokable url sz ps isPlain tr s)) = Some c \<and>
           connected c = [if isPlain then contentPreLoadFinished else contentLoadFinished] \<and>
           loading c = Some url)) \<and>
   ((endsWith_ci (url_path url) ''.html'' \<or> endsWith_ci (url_path url) ''.htm'' \<or>
       \<not> url_isLocalFile url) \<longrightarrow>
      LoadContent url \<in> set (appended s (initializeInvokable url sz ps isPlain tr s)) \<and>
      map_option variant (content (impl (initializeInvokable url sz ps isPlain tr s))) =
        Some WebContent) \<and>
   (url_isLocalFile url \<and> endsWith_ci (url_path url) ''.qml'' \<longrightarrow>
      LoadContent url \<in> set (appended s (initializeInvokable url sz ps isPlain tr s)) \<and>
      map_option variant (content (impl (initializeInvokable url sz ps isPlain tr s))) =
        Some QmlContent) \<and>
   (LoadContent url \<in> set (appended s (initializeInvokable url sz ps isPlain tr s)) \<and>
    \<not> crashed s \<and> \<not> deleted s \<and> pcs s t = Waiting c \<and>
    mutex (impl s) = Some t \<and> waitCondition (impl s) = Some t \<longrightarrow>
      (\<exists>s2. step e (Emit (if isPlain then contentPreLoadFinished else contentLoadFinished) b)
               (initializeInvokable url sz ps isPlain tr s) = Some s2 \<and>
            pcs s2 t = Woken c \<and> initializeResult (impl s2) = b) \<and>
      step e (Emit (if isPlain then contentLoadFinished else contentPreLoadFinished) b)
        (initializeInvokable url sz ps isPlain tr s) =
        Some (initializeInvokable url sz ps isPlain tr s))"
proof -
  let ?s' = "initializeInvokable url sz ps isPlain tr s"
  consider
    (web) "endsWith_ci (url_path url) ''.html'' \<or> endsWith_ci (url_path url) ''.htm'' \<or>
       \<not> url_isLocalFile url"
  | (qml) "url_isLocalFile url" "endsWith_ci (url_path url) ''.qml''"
  | (bad) "url_isLocalFile url" "\<not> endsWith_ci (url_path url) ''.html''"
      "\<not> endsWith_ci (url_path url) ''.htm''" "\<not> endsWith_ci (url_path url) ''.qml''"
    by blast
  then show ?thesis
  proof cases
    case web
    note eq = initializeInvokable_web[OF web, of sz ps isPlain tr s]
    show ?thesis
      unfolding eq using web qml_not_html[of "url_path url"]
      by (cases isPlain; cases tr)
         (auto simp: appended_def step_def initializeComplete_def holds_def wakeAll_def
            emit_action_def)
  next
    case qml
    note eq = initializeInvokable_qml[OF qml, of sz ps isPlain tr s]
    show ?thesis
      unfolding eq using qml qml_not_html[OF qml(2)]
      by (cases isPlain)
         (simp_all add: appended_def step_def initializeComplete_def holds_def wakeAll_def
            emit_action_def)
  next
    case bad
    note eq = initializeInvokable_bad[OF bad, of sz ps isPlain tr s]
    show ?thesis
      unfolding eq using bad
      by (simp add: appended_def)
  qed
qed

theorem completion_wired_before_load_witness:
  "LoadContent example_qml \<in>
     set (appended example_waiting
            (initializeInvokable example_qml (640, 480) 0 True False example_waiting)) \<and>
   url_isLocalFile example_qml \<and> endsWith_ci (url_path example_qml) ''.qml'' \<and>
   \<not> url_isLocalFile example_remote \<and>
   \<not> crashed example_waiting \<and> \<not> deleted example_waiting \<and>
   pcs example_waiting (Worker 0) = Waiting (C_initialize ''/v/Scene.QML'' 640 480 0 False) \<and>
   mutex (impl example_waiting) = Some (Worker 0) \<and>
   waitCondition (impl example_waiting) = Some (Worker 0) \<and>
   Connect contentPreLoadFinished \<in>
     set (takeWhile (\<lambda>a. a \<noteq> LoadContent example_qml)
            (appended example_waiting
               (initializeInvokable example_qml (640, 480) 0 True False example_waiting))) \<and>
   LoadContent example_remote \<in>
     set (appended example_waiting
            (initializeInvokable example_remote (640, 480) 0 False True example_waiting)) \<and>
   (\<exists>s2. step example_env (Emit contentPreLoadFinished True)
            (initializeInvokable example_qml (640, 480) 0 True False example_waiting) = Some s2 \<and>
         pcs s2 (Worker 0) = Woken (C_initialize ''/v/Scene.QML'' 640 480 0 False) \<and>
         initializeResult (impl s2) = True) \<and>
   step example_env (Emit contentLoadFinished True)
     (initializeInvokable example_qml (640, 480) 0 True False example_waiting) =
     Some (initializeInvokable example_qml (640, 480) 0 True False example_waiting)"
proof -
  have q: "url_isLocalFile example_qml \<and> endsWith_ci (url_path example_qml) ''.qml''"
    by (simp add: example_qml_def endsWith_ci_def toLower_def suffix_to_prefix)
  have r: "\<not> url_isLocalFile example_remote"
    by (simp add: example_remote_def)
  have st: "\<not> crashed example_waiting \<and> \<not> deleted example_waiting \<and>
    pcs example_waiting (Worker 0) = Waiting (C_initialize ''/v/Scene.QML'' 640 480 0 False) \<and>
    mutex (impl example_waiting) = Some (Worker 0) \<and>
    waitCondition (impl example_waiting) = Some (Worker 0)"
    by (simp add: example_waiting_def fresh_def)
  note T = completion_wired_before_load[of example_qml "(640, 480)" 0 True False example_waiting
      "Worker 0" "C_initialize ''/v/Scene.QML'' 640 480 0 False" example_env True]
  note R = completion_wired_before_load[of example_remote "(640, 480)" 0 False True example_waiting]
  note ld = T[THEN conjunct2, THEN conjunct2, THEN conjunct2, THEN conjunct1, THEN mp, OF q,
      THEN conjunct1]
  note ldr = R[THEN conjunct2, THEN conjunct2, THEN conjunct1, THEN mp, OF disjI2, OF disjI2,
      OF r, THEN conjunct1]
  note wired = T[THEN conjunct2, THEN conjunct1, THEN mp, OF ld, THEN conjunct1]
  note fin = T[THEN conjunct2, THEN conjunct2, THEN conjunct2, THEN conjunct2, THEN mp,
      OF conjI, OF ld st]
  from q r st ld ldr wired fin show ?thesis by simp
qed


subsection \<open>\<open>initialize\<close> on the UI thread\<close>

text \<open>
  Claim C7. \<open>initialize\<close> called on the UI thread logs that it cannot be initialized
  there and returns false in one step. The fields of the object and the event
  queue are unchanged, nothing but the log message is added to the trace, and the
  outcome does not depend on the file name or on what Qt would make of it.
\<close>

theorem initialize_on_owner_thread:
  "onUIThread t \<Longrightarrow>
     impl (initialize e t fileName w h ps tr s) = impl s \<and>
     queue (initialize e t fileName w h ps tr s) = queue s \<and>
     trace (initialize e t fileName w h ps tr s) = trace s @ [Log LogWrongThread] \<and>
     pcs (initialize e t fileName w h ps tr s) = (pcs s)(t := Done (RBool False)) \<and>
     crashed (initialize e t fileName w h ps tr s) = crashed s \<and>
     deleted (initialize e t fileName w h ps tr s) = deleted s \<and>
     (\<forall>e' fileName'. initialize e' t fileName' w h ps tr s = initialize e t fileName w h ps tr s) \<and>
     (\<not> crashed s \<and> \<not> deleted s \<and> callable (pcs s t) \<longrightarrow>
        step e (Call t (C_initialize fileName w h ps tr)) s =
          Some (initialize e t fileName w h ps tr s))"
  by (simp add: initialize_def return_def emit_action_def step_def)

theorem initialize_on_owner_thread_witness:
  "onUIThread Owner \<and>
   step example_env (Call Owner (C_initialize ''/v/a.html'' 640 480 0 False)) fresh =
     Some (initialize example_env Owner ''/v/a.html'' 640 480 0 False fresh) \<and>
   impl (initialize example_env Owner ''/v/a.html'' 640 480 0 False fresh) = EffectsImpl_ctor \<and>
   queue (initialize example_env Owner ''/v/a.html'' 640 480 0 False fresh) = [] \<and>
   trace (initialize example_env Owner ''/v/a.html'' 640 480 0 False fresh) =
     [Log LogWrongThread] \<and>
   pcs (initialize example_env Owner ''/v/a.html'' 640 480 0 False fresh) Owner =
     Done (RBool False)"
proof -
  have o: "onUIThread Owner" by (simp add: onUIThread_def)
  have f: "\<not> crashed fresh \<and> \<not> deleted fresh \<and> callable (pcs fresh Owner)"
    by (simp add: fresh_def callable_def)
  note w = initialize_on_owner_thread[OF o, of example_env "''/v/a.html''" 640 480 0 False fresh]
  from o f w show ?thesis by (simp add: fresh_def)
qed


subsection \<open>Resolving the file name\<close>

text \<open>
  Claim C6. \<open>initialize\<close> parses the file name as a url. If its scheme is \<open>plain\<close>,
  the url is parsed again from its text without the scheme and the plain flag is
  set. If the scheme of the url so obtained has fewer than two characters, the url
  becomes \<open>QUrl::fromLocalFile\<close> of the absolute path of its text; when that url is
  not valid, \<open>initialize\<close> logs \<open>Invalid URL\<close> and returns false without posting
  anything. Otherwise the invocation is posted with the url and the plain flag.
\<close>

theorem locator_resolution:
  "snd (resolveUrl e fileName) = (url_scheme (QUrl_ctor e fileName) = ''plain'') \<and>
   (url_scheme (QUrl_ctor e fileName) = ''plain'' \<longrightarrow>
      resolveUrl e fileName =
        (let u1 = QUrl_ctor e (toString_RemoveScheme e (QUrl_ctor e fileName));
             loc = fromLocalFile e (absoluteFilePath e (toString e u1))
         in if length (url_scheme u1) < 2
            then (if url_isValid loc then Some loc else None, True)
            else (Some u1, True))) \<and>
   (url_scheme (QUrl_ctor e fileName) \<noteq> ''plain'' \<longrightarrow>
      resolveUrl e fileName =
        (let u1 = QUrl_ctor e fileName;
             loc = fromLocalFile e (absoluteFilePath e (toString e u1))
         in if length (url_scheme u1) < 2
            then (if url_isValid loc then Some loc else None, False)
            else (Some u1, False))) \<and>
   (\<not> onUIThread t \<and> fst (resolveUrl e fileName) = None \<longrightarrow>
      initialize e t fileName w h ps tr s =
        return t (RBool False) (emit_action (Log (LogInvalidURL fileName)) s)) \<and>
   (\<forall>u. \<not> onUIThread t \<and> fst (resolveUrl e fileName) = Some u \<longrightarrow>
      queue (initialize e t fileName w h ps tr s) =
        queue s @ [EvInitialize u (w, h) ps (snd (resolveUrl e fileName)) tr] \<and>
      pcs (initialize e t fileName w h ps tr s) t =
        Holding (C_initialize fileName w h ps tr))"
  by (auto simp: resolveUrl_def initialize_def Let_def return_def emit_action_def post_def
        publish_def split: prod.splits option.splits)


theorem locator_resolution_witness:
  "url_scheme (QUrl_ctor example_env ''plain:a.html'') = ''plain'' \<and>
   resolveUrl example_env ''plain:a.html'' =
     (Some \<lparr>url_scheme = ''file'', url_path = ''/cwd/a.html'', url_isLocalFile = True,
            url_isValid = True\<rparr>, True) \<and>
   url_scheme (QUrl_ctor example_env ''http://h/x.html'') \<noteq> ''plain'' \<and>
   resolveUrl example_env ''http://h/x.html'' =
     (Some \<lparr>url_scheme = ''http'', url_path = ''//h/x.html'', url_isLocalFile = False,
            url_isValid = True\<rparr>, False) \<and>
   \<not> onUIThread (Worker 0) \<and>
   fst (resolveUrl example_env '''') = None \<and>
   initialize example_env (Worker 0) '''' 640 480 0 False fresh =
     return (Worker 0) (RBool False) (emit_action (Log (LogInvalidURL '''')) fresh) \<and>
   queue (initialize example_env (Worker 0) ''plain:a.html'' 640 480 0 False fresh) =
     [EvInitialize
        \<lparr>url_scheme = ''file'', url_path = ''/cwd/a.html'', url_isLocalFile = True,
         url_isValid = True\<rparr> (640, 480) 0 True False]"
proof -
  have p: "url_scheme (QUrl_ctor example_env ''plain:a.html'') = ''plain''"
    by (simp add: example_env_def example_QUrl_def toLower_def)
  have np: "url_scheme (QUrl_ctor example_env ''http://h/x.html'') \<noteq> ''plain''"
    by (simp add: example_env_def example_QUrl_def toLower_def)
  have w: "\<not> onUIThread (Worker 0)"
    by (simp add: onUIThread_def)
  note P = locator_resolution[of example_env "''plain:a.html''" "Worker 0" 640 480 0 False fresh]
  note H = locator_resolution[of example_env "''http://h/x.html''"]
  note E = locator_resolution[of example_env "''''" "Worker 0" 640 480 0 False fresh]
  have rp: "resolveUrl example_env ''plain:a.html'' =
     (Some \<lparr>url_scheme = ''file'', url_path = ''/cwd/a.html'', url_isLocalFile = True,
            url_isValid = True\<rparr>, True)"
    using P[THEN conjunct2, THEN conjunct1, THEN mp, OF p]
    by (simp add: example_env_def example_QUrl_def toLower_def)
  have rh: "resolveUrl example_env ''http://h/x.html'' =
     (Some \<lparr>url_scheme = ''http'', url_path = ''//h/x.html'', url_isLocalFile = False,
            url_isValid = True\<rparr>, False)"
    using H[THEN conjunct2, THEN conjunct2, THEN conjunct1, THEN mp, OF np]
    by (simp add: example_env_def example_QUrl_def toLower_def)
  have re: "fst (resolveUrl example_env '''') = None"
    using E[THEN conjunct2, THEN conjunct2, THEN conjunct1]
    by (simp add: example_env_def example_QUrl_def)
  note fail = E[THEN conjunct2, THEN conjunct2, THEN conjunct2, THEN conjunct1, THEN mp,
      OF conjI, OF w re]
  have posted: "queue (initialize example_env (Worker 0) ''plain:a.html'' 640 480 0 False fresh) =
     [EvInitialize
        \<lparr>url_scheme = ''file'', url_path = ''/cwd/a.html'', url_isLocalFile = True,
         url_isValid = True\<rparr> (640, 480) 0 True False]"
    using P[THEN conjunct2, THEN conjunct2, THEN conjunct2, THEN conjunct2, THEN spec,
        of "\<lparr>url_scheme = ''file'', url_path = ''/cwd/a.html'', url_isLocalFile = True,
            url_isValid = True\<rparr>"] w rp
    by (simp add: fresh_def)
  from p np w rp rh re fail posted show ?thesis by simp
qed

subsection \<open>Runs of the example and of a marshaled \<open>render\<close>\<close>

lemmas example_defs =
  example_env_def example_QUrl_def toLower_def endsWith_ci_def suffix_to_prefix
  fresh_def EffectsImpl_ctor_def onUIThread_def callable_def resolveUrl_def
  initializeInvokable_def result_of_def

lemma example_setup_run: "exec example_env example_setup fresh = Some example_ready"
  by (simp add: example_setup_def example_ready_def example_loaded_def step_def member_defs
        example_defs Let_def fun_upd_twist)

lemma marshaled_render_run:
  fixes e :: env and time :: real and img :: Image and s :: sys and c :: Content and t :: tid
  assumes "\<not> crashed s" "\<not> deleted s" "queue s = []" "content (impl s) = Some c"
    and "callable (pcs s t)" "\<not> onUIThread t"
  defines "c1 \<equiv> c\<lparr>contentSize := (width img, height img)\<rparr>"
  defines "s1 \<equiv> post (EvRender time img) (publish t (C_render time img) s)"
  defines "s2 \<equiv> s1\<lparr>pcs := (pcs s1)(t := Waiting (C_render time img))\<rparr>"
  defines "s3 \<equiv> wakeAll t (s2\<lparr>queue := [],
      impl := (impl s2)\<lparr>content := Some c1, renderResult := renderContent e c1 time img\<rparr>,
      trace := trace s2 @ [SetContentSize (width img, height img), RenderContent time img]\<rparr>)"
  shows "step e (Call t (C_render time img)) s = Some s1"
    and "step e Dispatch s1 = None" and "step e (Resume t) s1 = None"
    and "step e (Wait t) s1 = Some s2"
    and "step e (Resume t) s2 = None" and "step e (Wait t) s2 = None"
    and "step e Dispatch s2 = Some s3"
    and "step e Dispatch s3 = None" and "step e (Wait t) s3 = None"
    and "step e (Resume t) s3 = Some (leave t (C_render time img) s3)"
  using assms(1-6)
  by (simp_all add: s1_def s2_def s3_def c1_def step_def member_defs Let_def)

lemma exec_append:
  "exec e (xs @ ys) s = (case exec e xs s of None \<Rightarrow> None | Some s1 \<Rightarrow> exec e ys s1)"
  by (induction xs arbitrary: s) (auto split: option.splits)

lemma example_ready_quiet:
  "\<not> crashed example_ready \<and> \<not> deleted example_ready \<and> queue example_ready = [] \<and>
   content (impl example_ready) = Some example_loaded \<and>
   (\<forall>u. callable (pcs example_ready u)) \<and> \<not> onUIThread (Worker 0)"
  by (simp add: example_ready_def callable_def onUIThread_def)

lemma internal_steps_of_render:
  fixes e :: env and time :: real and img :: Image and s :: sys and c :: Content and t :: tid
  assumes "\<not> crashed s" "\<not> deleted s" "queue s = []" "content (impl s) = Some c"
    and "\<forall>u. callable (pcs s u)" "\<not> onUIThread t"
  defines "c1 \<equiv> c\<lparr>contentSize := (width img, height img)\<rparr>"
  defines "s1 \<equiv> post (EvRender time img) (publish t (C_render time img) s)"
  defines "s2 \<equiv> s1\<lparr>pcs := (pcs s1)(t := Waiting (C_render time img))\<rparr>"
  defines "s3 \<equiv> wakeAll t (s2\<lparr>queue := [],
      impl := (impl s2)\<lparr>content := Some c1, renderResult := renderContent e c1 time img\<rparr>,
      trace := trace s2 @ [SetContentSize (width img, height img), RenderContent time img]\<rparr>)"
  defines "s4 \<equiv> leave t (C_render time img) s3"
  shows "internal l \<Longrightarrow> step e l s1 = Some x \<Longrightarrow> l = Wait t \<and> x = s2"
    and "internal l \<Longrightarrow> step e l s2 = Some x \<Longrightarrow> l = Dispatch \<and> x = s3"
    and "internal l \<Longrightarrow> step e l s3 = Some x \<Longrightarrow> l = Resume t \<and> x = s4"
    and "internal l \<Longrightarrow> step e l s4 = None"
proof -
  have cu: "pcs s u = Idle \<or> (\<exists>r. pcs s u = Done r)" for u
  proof -
    from assms(5) have "callable (pcs s u)" by simp
    then show ?thesis by (cases "pcs s u") (simp_all add: callable_def)
  qed
  show "internal l \<Longrightarrow> step e l s1 = Some x \<Longrightarrow> l = Wait t \<and> x = s2"
    using assms(1-4,6) cu[of "case l of Wait u \<Rightarrow> u | Resume u \<Rightarrow> u | _ \<Rightarrow> t"]
    by (cases l)
       (auto simp: internal_def s1_def s2_def step_def member_defs Let_def
             split: if_splits pc.splits)
  show "internal l \<Longrightarrow> step e l s2 = Some x \<Longrightarrow> l = Dispatch \<and> x = s3"
    using assms(1-4,6) cu[of "case l of Wait u \<Rightarrow> u | Resume u \<Rightarrow> u | _ \<Rightarrow> t"]
    by (cases l)
       (auto simp: internal_def s1_def s2_def s3_def c1_def step_def member_defs Let_def
             split: if_splits pc.splits)
  show "internal l \<Longrightarrow> step e l s3 = Some x \<Longrightarrow> l = Resume t \<and> x = s4"
    using assms(1-4,6) cu[of "case l of Wait u \<Rightarrow> u | Resume u \<Rightarrow> u | _ \<Rightarrow> t"]
    by (cases l)
       (auto simp: internal_def s1_def s2_def s3_def s4_def c1_def step_def member_defs Let_def
             split: if_splits pc.splits)
  show "internal l \<Longrightarrow> step e l s4 = None"
    using assms(1-4,6) cu[of "case l of Wait u \<Rightarrow> u | Resume u \<Rightarrow> u | _ \<Rightarrow> t"]
    by (cases l)
       (auto simp: internal_def s1_def s2_def s3_def s4_def c1_def step_def member_defs
             result_of_def Let_def split: if_splits pc.splits)
qed

lemma render_runs_are_prefixes:
  fixes e :: env and time :: real and img :: Image and s :: sys and c :: Content and t :: tid
  assumes q: "\<not> crashed s" "\<not> deleted s" "queue s = []" "content (impl s) = Some c"
    "\<forall>u. callable (pcs s u)" "\<not> onUIThread t"
    and int: "list_all internal ls"
    and ex: "exec e (Call t (C_render time img) # ls) s = Some s'"
  shows "prefix ls [Wait t, Dispatch, Resume t] \<and>
         (callable (pcs s' t) \<longrightarrow>
            ls = [Wait t, Dispatch, Resume t] \<and>
            pcs s' =
              (pcs s)(t := Done (RBool (renderContent e
                        (c\<lparr>contentSize := (width img, height img)\<rparr>) time img))))"
proof -
  define c1 where "c1 = c\<lparr>contentSize := (width img, height img)\<rparr>"
  define s1 where "s1 = post (EvRender time img) (publish t (C_render time img) s)"
  define s2 where "s2 = s1\<lparr>pcs := (pcs s1)(t := Waiting (C_render time img))\<rparr>"
  define s3 where "s3 = wakeAll t (s2\<lparr>queue := [],
      impl := (impl s2)\<lparr>content := Some c1, renderResult := renderContent e c1 time img\<rparr>,
      trace := trace s2 @ [SetContentSize (width img, height img), RenderContent time img]\<rparr>)"
  define s4 where "s4 = leave t (C_render time img) s3"
  from q(5) have ct: "callable (pcs s t)" by simp
  note run = marshaled_render_run[where e=e and time=time and img=img, OF q(1-4) ct q(6),
      folded c1_def, folded s1_def, folded s2_def, folded s3_def, folded s4_def]
  note only = internal_steps_of_render[where e=e and time=time and img=img, OF q,
      folded c1_def, folded s1_def, folded s2_def, folded s3_def, folded s4_def]
  have p1: "\<not> callable (pcs s1 t)" by (simp add: s1_def publish_def post_def callable_def)
  have p2: "\<not> callable (pcs s2 t)" by (simp add: s2_def callable_def)
  have p3: "\<not> callable (pcs s3 t)"
    by (simp add: s3_def s2_def s1_def publish_def post_def wakeAll_def emit_action_def
          callable_def)
  have p4: "pcs s4 = (pcs s)(t := Done (RBool (renderContent e c1 time img)))"
    by (simp add: s4_def s3_def s2_def s1_def publish_def post_def wakeAll_def emit_action_def
          leave_def return_def result_of_def)
  from ex run(1) have e1: "exec e ls s1 = Some s'" by simp
  show ?thesis
  proof (cases ls)
    case Nil
    with e1 p1 show ?thesis by simp
  next
    case (Cons l1 r1)
    with e1 int obtain x1 where "internal l1" "step e l1 s1 = Some x1" "exec e r1 x1 = Some s'"
      "list_all internal r1"
      by (auto split: option.splits)
    with only(1)[of l1 x1] have l1: "l1 = Wait t" and e2: "exec e r1 s2 = Some s'"
      by simp_all
    show ?thesis
    proof (cases r1)
      case Nil
      with e2 p2 Cons l1 show ?thesis by simp
    next
      case (Cons l2 r2)
      with e2 \<open>list_all internal r1\<close> obtain x2 where
        "internal l2" "step e l2 s2 = Some x2" "exec e r2 x2 = Some s'" "list_all internal r2"
        by (auto split: option.splits)
      with only(2)[of l2 x2] have l2: "l2 = Dispatch" and e3: "exec e r2 s3 = Some s'"
        by simp_all
      show ?thesis
      proof (cases r2)
        case Nil
        with e3 p3 \<open>ls = l1 # r1\<close> \<open>r1 = l2 # r2\<close> l1 l2 show ?thesis by simp
      next
        case (Cons l3 r3)
        with e3 \<open>list_all internal r2\<close> obtain x3 where
          "internal l3" "step e l3 s3 = Some x3" "exec e r3 x3 = Some s'" "list_all internal r3"
          by (auto split: option.splits)
        with only(3)[of l3 x3] have l3: "l3 = Resume t" and e4: "exec e r3 s4 = Some s'"
          by simp_all
        show ?thesis
        proof (cases r3)
          case Nil
          with e4 p4 \<open>ls = l1 # r1\<close> \<open>r1 = l2 # r2\<close> \<open>r2 = l3 # r3\<close> l1 l2 l3
          show ?thesis by (simp add: c1_def)
        next
          case (Cons l4 r4)
          with e4 \<open>list_all internal r3\<close> only(4)[of l4] show ?thesis
            by (auto split: option.splits)
        qed
      qed
    qed
  qed
qed

lemma render_run_quiet:
  fixes e :: env and s :: sys and c :: Content
  assumes "quiet s" "content (impl s) = Some c" "\<not> onUIThread t"
  shows "\<exists>s'. exec e (render_run (t, time, img)) s = Some s' \<and> quiet s' \<and>
           content (impl s') = Some (c\<lparr>contentSize := (width img, height img)\<rparr>) \<and>
           mutex (impl s') = None \<and> waitCondition (impl s') = None \<and>
           pcs s' t = Done (RBool (renderContent e
                        (c\<lparr>contentSize := (width img, height img)\<rparr>) time img))"
proof -
  from assms(1) have q: "\<not> crashed s" "\<not> deleted s" "queue s = []" "callable (pcs s t)"
    and cu: "\<forall>u. callable (pcs s u)"
    by (simp_all add: quiet_def)
  note run = marshaled_render_run[where e=e and time=time and img=img, OF q(1-3) assms(2) q(4)
      assms(3)]
  from run(1,4,7,10) have "exec e (render_run (t, time, img)) s = Some (leave t (C_render time img)
     (wakeAll t
       (post (EvRender time img) (publish t (C_render time img) s)
        \<lparr>pcs := (pcs (post (EvRender time img) (publish t (C_render time img) s)))
                  (t := Waiting (C_render time img)),
         queue := [],
         impl := (impl (post (EvRender time img) (publish t (C_render time img) s)))
                   \<lparr>content := Some (c\<lparr>contentSize := (width img, height img)\<rparr>),
                    renderResult := renderContent e (c\<lparr>contentSize := (width img, height img)\<rparr>) time img\<rparr>,
         trace := trace (post (EvRender time img) (publish t (C_render time img) s)) @
                    [SetContentSize (width img, height img), RenderContent time img]\<rparr>)))"
    by (simp add: render_run_def)
  moreover have "callable (Done r)" for r by (simp add: callable_def)
  ultimately show ?thesis
    using q cu
    by (simp add: quiet_def publish_def post_def wakeAll_def emit_action_def leave_def
          return_def result_of_def)
qed

lemma serial_renders:
  fixes e :: env
  assumes "quiet s" "content (impl s) = Some c"
    and "list_all (\<lambda>rc. \<not> onUIThread (fst rc)) (cs @ [(t, time, img)])"
  shows "\<exists>s'. exec e (serial (cs @ [(t, time, img)])) s = Some s' \<and> quiet s' \<and>
           mutex (impl s') = None \<and> waitCondition (impl s') = None \<and>
           pcs s' t = Done (RBool (renderContent e
                        (c\<lparr>contentSize := (width img, height img)\<rparr>) time img))"
  using assms
proof (induction cs arbitrary: s c)
  case Nil
  then have "\<not> onUIThread t" by simp
  from render_run_quiet[OF Nil(1,2) this, of e time img] show ?case
    by (auto simp: serial_def)
next
  case (Cons rc cs)
  obtain t0 time0 img0 where rc: "rc = (t0, time0, img0)" by (cases rc)
  with Cons.prems(3) have "\<not> onUIThread t0" by simp
  from render_run_quiet[OF Cons.prems(1,2) this, of e time0 img0] obtain s0 where
    s0: "exec e (render_run (t0, time0, img0)) s = Some s0" "quiet s0"
      "content (impl s0) = Some (c\<lparr>contentSize := (width img0, height img0)\<rparr>)"
    by blast
  from Cons.prems(3) have "list_all (\<lambda>rc. \<not> onUIThread (fst rc)) (cs @ [(t, time, img)])"
    by simp
  from Cons.IH[OF s0(2,3) this] s0(1) rc show ?case
    by (simp add: serial_def exec_append)
qed

lemma example_ready_is_quiet: "quiet example_ready"
  by (simp add: quiet_def example_ready_def callable_def)

subsection \<open>A stranded caller stays stranded\<close>

lemma stranded_step:
  assumes "stranded a c s" and "step e l s = Some s'"
  shows "stranded a c s'"
proof (cases l)
  case (Call t cl)
  with assms show ?thesis
    by (cases cl)
       (auto simp: stranded_def step_def member_defs callable_def Let_def
             split: if_splits option.splits prod.splits pc.splits)
next
  case (Wait t)
  with assms show ?thesis
    by (auto simp: stranded_def step_def split: if_splits pc.splits)
next
  case (Resume t)
  with assms show ?thesis
    by (auto simp: stranded_def step_def leave_def return_def split: if_splits pc.splits)
next
  case Dispatch
  with assms show ?thesis
    by (auto simp: stranded_def step_def member_defs initializeInvokable_def Let_def
             split: if_splits option.splits prod.splits pc.splits list.splits event.splits)
next
  case (Emit sig b)
  with assms show ?thesis
    by (auto simp: stranded_def step_def member_defs Let_def
             split: if_splits option.splits pc.splits)
qed

lemma stranded_exec:
  "stranded a c s \<Longrightarrow> exec e ls s = Some s' \<Longrightarrow> stranded a c s'"
proof (induction ls arbitrary: s)
  case Nil
  then show ?case by simp
next
  case (Cons l ls)
  then show ?case
    by (auto split: option.splits dest: stranded_step)
qed

lemma stranded_forever:
  assumes "stranded a c s"
  shows "\<not> (\<exists>ls s'. exec e ls s = Some s' \<and> pcs s' a \<noteq> Waiting c)"
  using stranded_exec[OF assms] by (auto simp: stranded_def)

lemma example_race_run:
  "\<exists>s. exec example_env
          [Call (Worker 0) (C_render 0 example_image), Wait (Worker 0),
           Call (Worker 1) (C_render 1 example_image)] example_ready = Some s \<and>
        pcs s (Worker 0) = Waiting (C_render 0 example_image) \<and>
        pcs s (Worker 1) = Holding (C_render 1 example_image) \<and>
        mutex (impl s) = Some (Worker 1) \<and>
        queue s = [EvRender 0 example_image, EvRender 1 example_image]"
  by (simp add: example_ready_def example_loaded_def step_def member_defs example_defs Let_def)

lemma example_race_end:
  "\<exists>s. exec example_env
          [Call (Worker 0) (C_render 0 example_image), Wait (Worker 0),
           Call (Worker 1) (C_render 1 example_image), Wait (Worker 1), Dispatch,
           Resume (Worker 1), Dispatch] example_ready = Some s \<and>
        pcs s (Worker 0) = Waiting (C_render 0 example_image) \<and>
        pcs s (Worker 1) = Done (RBool True) \<and>
        waitCondition (impl s) = None \<and> queue s = [] \<and> \<not> crashed s"
  by (simp add: example_ready_def example_loaded_def step_def member_defs example_defs Let_def)

subsection \<open>Serialization of calls\<close>

text \<open>
  Claim C1, as amended. The object has no lock of its own: a marshaled call
  overwrites the \<open>mutex\<close> and \<open>waitCondition\<close> fields whatever they hold, so a
  second call can be marshaled while an earlier caller is still blocked.
  Serialization is left to the callers. Let a worker enter \<open>render\<close> on an
  initialized object while no thread is inside it and nothing is queued. Then its
  own record is the one published, and as long as no other call is made and the
  content emits no load signal, every run is a prefix of one schedule: the caller
  waits, the UI thread delivers the invocation, the caller leaves. The UI thread
  cannot complete the call before the caller waits, the caller cannot leave before
  the UI thread has completed the call, and a caller that has left has received
  what \<open>renderContent\<close> returned. The object is then as quiet as before, with no
  record published. Hence any finite sequence of such calls, each run to its end
  before the next is made, gives every caller the result of its own call.
\<close>

theorem synchronized_render_is_serialized:
  "(\<not> crashed s \<and> \<not> deleted s \<and> queue s = [] \<and> content (impl s) = Some c \<and>
   (\<forall>u. callable (pcs s u)) \<and> \<not> onUIThread t \<longrightarrow>
   (\<exists>s1 s2 s3 s4.
      step e (Call t (C_render time img)) s = Some s1 \<and>
      mutex (impl s1) = Some t \<and> waitCondition (impl s1) = Some t \<and>
      queue s1 = [EvRender time img] \<and>
      pcs s1 = (pcs s)(t := Holding (C_render time img)) \<and>
      step e Dispatch s1 = None \<and> step e (Resume t) s1 = None \<and>
      step e (Wait t) s1 = Some s2 \<and>
      step e (Resume t) s2 = None \<and> step e (Wait t) s2 = None \<and>
      step e Dispatch s2 = Some s3 \<and>
      pcs s3 = (pcs s)(t := Woken (C_render time img)) \<and>
      step e Dispatch s3 = None \<and> step e (Wait t) s3 = None \<and>
      step e (Resume t) s3 = Some s4 \<and>
      pcs s4 =
        (pcs s)(t := Done (RBool (renderContent e
                  (c\<lparr>contentSize := (width img, height img)\<rparr>) time img))) \<and>
      mutex (impl s4) = None \<and> waitCondition (impl s4) = None \<and> queue s4 = [] \<and>
      content (impl s4) = Some (c\<lparr>contentSize := (width img, height img)\<rparr>) \<and>
      \<not> crashed s4 \<and> \<not> deleted s4)) \<and>
   (\<not> crashed s \<and> \<not> deleted s \<and> queue s = [] \<and> content (impl s) = Some c \<and>
    (\<forall>u. callable (pcs s u)) \<and> \<not> onUIThread t \<longrightarrow>
    (\<forall>ls s'.
       list_all internal ls \<and> exec e (Call t (C_render time img) # ls) s = Some s' \<longrightarrow>
       prefix ls [Wait t, Dispatch, Resume t] \<and>
       (callable (pcs s' t) \<longrightarrow>
          ls = [Wait t, Dispatch, Resume t] \<and>
          pcs s' =
            (pcs s)(t := Done (RBool (renderContent e
                   (c\<lparr>contentSize := (width img, height img)\<rparr>) time img)))))) \<and>
   (\<forall>cs.
      quiet s \<and> content (impl s) = Some c \<and>
      list_all (\<lambda>rc. \<not> onUIThread (fst rc)) (cs @ [(t, time, img)]) \<longrightarrow>
      (\<exists>s'. exec e (serial (cs @ [(t, time, img)])) s = Some s' \<and> quiet s' \<and>
            mutex (impl s') = None \<and> waitCondition (impl s') = None \<and>
            pcs s' t =
              Done (RBool (renderContent e
                      (c\<lparr>contentSize := (width img, height img)\<rparr>) time img))))"
  (is "?one \<and> ?every \<and> ?sequence")
proof (intro conjI)
  show ?one
  proof (intro impI, elim conjE)
    assume a: "\<not> crashed s" "\<not> deleted s" "queue s = []" "content (impl s) = Some c"
      "\<forall>u. callable (pcs s u)" "\<not> onUIThread t"
    then have ct: "callable (pcs s t)" by simp
    define c1 where "c1 = c\<lparr>contentSize := (width img, height img)\<rparr>"
    define s1 where "s1 = post (EvRender time img) (publish t (C_render time img) s)"
    define s2 where "s2 = s1\<lparr>pcs := (pcs s1)(t := Waiting (C_render time img))\<rparr>"
    define s3 where "s3 = wakeAll t (s2\<lparr>queue := [],
        impl := (impl s2)\<lparr>content := Some c1, renderResult := renderContent e c1 time img\<rparr>,
        trace := trace s2 @ [SetContentSize (width img, height img), RenderContent time img]\<rparr>)"
    define s4 where "s4 = leave t (C_render time img) s3"
    note run = marshaled_render_run[where e=e and time=time and img=img, OF a(1-4) ct a(6),
        folded c1_def, folded s1_def, folded s2_def, folded s3_def, folded s4_def]
    have published: "mutex (impl s1) = Some t \<and> waitCondition (impl s1) = Some t \<and>
        queue s1 = [EvRender time img] \<and> pcs s1 = (pcs s)(t := Holding (C_render time img))"
      using a(3) by (simp add: s1_def publish_def post_def)
    have woken: "pcs s3 = (pcs s)(t := Woken (C_render time img))"
      by (simp add: s3_def s2_def s1_def publish_def post_def wakeAll_def emit_action_def)
    have left: "pcs s4 = (pcs s)(t := Done (RBool (renderContent e c1 time img))) \<and>
        mutex (impl s4) = None \<and> waitCondition (impl s4) = None \<and> queue s4 = [] \<and>
        content (impl s4) = Some c1 \<and> \<not> crashed s4 \<and> \<not> deleted s4"
      using a(1,2)
      by (simp add: s4_def s3_def s2_def s1_def publish_def post_def wakeAll_def emit_action_def
            leave_def return_def result_of_def)
    from run published woken left
    show "\<exists>s1 s2 s3 s4.
        step e (Call t (C_render time img)) s = Some s1 \<and>
        mutex (impl s1) = Some t \<and> waitCondition (impl s1) = Some t \<and>
        queue s1 = [EvRender time img] \<and>
        pcs s1 = (pcs s)(t := Holding (C_render time img)) \<and>
        step e Dispatch s1 = None \<and> step e (Resume t) s1 = None \<and>
        step e (Wait t) s1 = Some s2 \<and>
        step e (Resume t) s2 = None \<and> step e (Wait t) s2 = None \<and>
        step e Dispatch s2 = Some s3 \<and>
        pcs s3 = (pcs s)(t := Woken (C_render time img)) \<and>
        step e Dispatch s3 = None \<and> step e (Wait t) s3 = None \<and>
        step e (Resume t) s3 = Some s4 \<and>
        pcs s4 =
          (pcs s)(t := Done (RBool (renderContent e
                    (c\<lparr>contentSize := (width img, height img)\<rparr>) time img))) \<and>
        mutex (impl s4) = None \<and> waitCondition (impl s4) = None \<and> queue s4 = [] \<and>
        content (impl s4) = Some (c\<lparr>contentSize := (width img, height img)\<rparr>) \<and>
        \<not> crashed s4 \<and> \<not> deleted s4"
      unfolding c1_def by blast
  qed
next
  show ?every
  proof (intro impI allI, elim conjE)
    fix ls and s' :: sys
    assume q: "\<not> crashed s" "\<not> deleted s" "queue s = []" "content (impl s) = Some c"
      "\<forall>u. callable (pcs s u)" "\<not> onUIThread t"
      and r: "list_all internal ls" "exec e (Call t (C_render time img) # ls) s = Some s'"
    from render_runs_are_prefixes[OF q r]
    show "prefix ls [Wait t, Dispatch, Resume t] \<and>
       (callable (pcs s' t) \<longrightarrow>
          ls = [Wait t, Dispatch, Resume t] \<and>
          pcs s' =
            (pcs s)(t := Done (RBool (renderContent e
                   (c\<lparr>contentSize := (width img, height img)\<rparr>) time img))))" .
  qed
next
  show ?sequence
  proof (intro impI allI, elim conjE)
    fix cs :: "render_call list"
    assume "quiet s" "content (impl s) = Some c"
      "list_all (\<lambda>rc. \<not> onUIThread (fst rc)) (cs @ [(t, time, img)])"
    from serial_renders[OF this, of e]
    show "\<exists>s'. exec e (serial (cs @ [(t, time, img)])) s = Some s' \<and> quiet s' \<and>
            mutex (impl s') = None \<and> waitCondition (impl s') = None \<and>
            pcs s' t =
              Done (RBool (renderContent e
                      (c\<lparr>contentSize := (width img, height img)\<rparr>) time img))" .
  qed
qed

theorem synchronized_render_is_serialized_witness:
  "\<not> crashed example_ready \<and> \<not> deleted example_ready \<and> queue example_ready = [] \<and>
   content (impl example_ready) = Some example_loaded \<and>
   (\<forall>u. callable (pcs example_ready u)) \<and> \<not> onUIThread (Worker 0) \<and>
   (\<exists>s4. exec example_env
           [Call (Worker 0) (C_render 0 example_image), Wait (Worker 0), Dispatch,
            Resume (Worker 0)] example_ready = Some s4 \<and>
         pcs s4 (Worker 0) = Done (RBool True) \<and>
         mutex (impl s4) = None \<and> waitCondition (impl s4) = None \<and>
         callable (pcs s4 (Worker 0)) \<and>
         prefix [Wait (Worker 0), Dispatch, Resume (Worker 0)]
           [Wait (Worker 0), Dispatch, Resume (Worker 0)]) \<and>
   list_all internal [Wait (Worker 0), Dispatch, Resume (Worker 0)] \<and>
   list_all internal [Wait (Worker 0), Resume (Worker 0)] \<and>
   exec example_env
     [Call (Worker 0) (C_render 0 example_image), Wait (Worker 0), Resume (Worker 0)]
     example_ready = None \<and>
   quiet example_ready \<and>
   list_all (\<lambda>rc. \<not> onUIThread (fst rc))
     ([(Worker 1, 1, example_image)] @ [(Worker 0, 0, example_image)]) \<and>
   (\<exists>s'. exec example_env
           (serial ([(Worker 1, 1, example_image)] @ [(Worker 0, 0, example_image)]))
           example_ready = Some s' \<and>
         quiet s' \<and> pcs s' (Worker 0) = Done (RBool True))"
proof -
  note T = synchronized_render_is_serialized[of example_ready example_loaded "Worker 0"
      example_env 0 example_image]
  from T[THEN conjunct1, THEN mp, OF example_ready_quiet]
  obtain s1 s2 s3 s4 where
    "step example_env (Call (Worker 0) (C_render 0 example_image)) example_ready = Some s1"
    "step example_env (Wait (Worker 0)) s1 = Some s2"
    "step example_env Dispatch s2 = Some s3"
    "step example_env (Resume (Worker 0)) s3 = Some s4"
    "pcs s4 = (pcs example_ready)(Worker 0 := Done (RBool (renderContent example_env
        (example_loaded\<lparr>contentSize := (width example_image, height example_image)\<rparr>)
        0 example_image)))"
    "mutex (impl s4) = None" "waitCondition (impl s4) = None"
    by blast
  then have run: "exec example_env
           [Call (Worker 0) (C_render 0 example_image), Wait (Worker 0), Dispatch,
            Resume (Worker 0)] example_ready = Some s4"
    and left: "pcs s4 (Worker 0) = Done (RBool True)"
      "mutex (impl s4) = None" "waitCondition (impl s4) = None"
    by (simp_all add: example_env_def)
  have i3: "list_all internal [Wait (Worker 0), Dispatch, Resume (Worker 0)]"
    and i2: "list_all internal [Wait (Worker 0), Resume (Worker 0)]"
    by (simp_all add: internal_def)
  note E = T[THEN conjunct2, THEN conjunct1, THEN mp, OF example_ready_quiet, THEN spec,
      THEN spec, THEN mp]
  from E[OF conjI, OF i3 run]
  have pre: "prefix [Wait (Worker 0), Dispatch, Resume (Worker 0)]
           [Wait (Worker 0), Dispatch, Resume (Worker 0)]"
    by simp
  from left have cl: "callable (pcs s4 (Worker 0))" by (simp add: callable_def)
  have none: "exec example_env
     [Call (Worker 0) (C_render 0 example_image), Wait (Worker 0), Resume (Worker 0)]
     example_ready = None"
  proof (cases "exec example_env
     [Call (Worker 0) (C_render 0 example_image), Wait (Worker 0), Resume (Worker 0)]
     example_ready")
    case None
    then show ?thesis .
  next
    case (Some x)
    from E[OF conjI, OF i2 Some] show ?thesis by simp
  qed
  have w: "list_all (\<lambda>rc. \<not> onUIThread (fst rc))
     ([(Worker 1, 1, example_image)] @ [(Worker 0, 0, example_image)])"
    by (simp add: onUIThread_def)
  from T[THEN conjunct2, THEN conjunct2, THEN spec, THEN mp, OF conjI, OF example_ready_is_quiet
      conjI, OF _ w] example_ready_quiet
  have seq: "\<exists>s'. exec example_env
           (serial ([(Worker 1, 1, example_image)] @ [(Worker 0, 0, example_image)]))
           example_ready = Some s' \<and>
         quiet s' \<and> pcs s' (Worker 0) = Done (RBool True)"
    by (auto simp: example_env_def)
  from example_ready_quiet run left cl pre i3 i2 none example_ready_is_quiet w seq
  show ?thesis by blast
qed

text \<open>
  Claim C1 as stated fails. With two workers calling \<open>render\<close> without
  synchronization, the second call is marshaled while the first caller is still
  blocked, and overwrites the published record. The UI thread's completion of the
  first invocation then wakes the second caller; the second invocation finds the
  fields cleared and wakes nobody. The first caller stays blocked in every
  continuation of the run.
\<close>

theorem unsynchronized_renders_strand_a_caller:
  "(\<exists>s. exec example_env
          (example_setup @
           [Call (Worker 0) (C_render 0 example_image), Wait (Worker 0),
            Call (Worker 1) (C_render 1 example_image)]) fresh = Some s \<and>
        pcs s (Worker 0) = Waiting (C_render 0 example_image) \<and>
        pcs s (Worker 1) = Holding (C_render 1 example_image) \<and>
        mutex (impl s) = Some (Worker 1) \<and>
        queue s = [EvRender 0 example_image, EvRender 1 example_image]) \<and>
   (\<exists>s. exec example_env
          (example_setup @
           [Call (Worker 0) (C_render 0 example_image), Wait (Worker 0),
            Call (Worker 1) (C_render 1 example_image), Wait (Worker 1), Dispatch,
            Resume (Worker 1), Dispatch]) fresh = Some s \<and>
        pcs s (Worker 1) = Done (RBool True) \<and>
        pcs s (Worker 0) = Waiting (C_render 0 example_image) \<and>
        queue s = [] \<and> \<not> crashed s \<and>
        \<not> (\<exists>ls s'. exec example_env ls s = Some s' \<and>
                     pcs s' (Worker 0) \<noteq> Waiting (C_render 0 example_image)))"
proof (intro conjI)
  from example_race_run
  show "\<exists>s. exec example_env
          (example_setup @
           [Call (Worker 0) (C_render 0 example_image), Wait (Worker 0),
            Call (Worker 1) (C_render 1 example_image)]) fresh = Some s \<and>
        pcs s (Worker 0) = Waiting (C_render 0 example_image) \<and>
        pcs s (Worker 1) = Holding (C_render 1 example_image) \<and>
        mutex (impl s) = Some (Worker 1) \<and>
        queue s = [EvRender 0 example_image, EvRender 1 example_image]"
    by (simp only: exec_append example_setup_run option.case)
next
  from example_race_end obtain s where
    run: "exec example_env
          [Call (Worker 0) (C_render 0 example_image), Wait (Worker 0),
           Call (Worker 1) (C_render 1 example_image), Wait (Worker 1), Dispatch,
           Resume (Worker 1), Dispatch] example_ready = Some s"
    and obs: "pcs s (Worker 0) = Waiting (C_render 0 example_image)"
      "pcs s (Worker 1) = Done (RBool True)" "waitCondition (impl s) = None" "queue s = []"
      "\<not> crashed s"
    by blast
  from obs have "stranded (Worker 0) (C_render 0 example_image) s"
    by (simp add: stranded_def)
  from stranded_forever[OF this, of example_env] run obs
  show "\<exists>s. exec example_env
          (example_setup @
           [Call (Worker 0) (C_render 0 example_image), Wait (Worker 0),
            Call (Worker 1) (C_render 1 example_image), Wait (Worker 1), Dispatch,
            Resume (Worker 1), Dispatch]) fresh = Some s \<and>
        pcs s (Worker 1) = Done (RBool True) \<and>
        pcs s (Worker 0) = Waiting (C_render 0 example_image) \<and>
        queue s = [] \<and> \<not> crashed s \<and>
        \<not> (\<exists>ls s'. exec example_env ls s = Some s' \<and>
                     pcs s' (Worker 0) \<noteq> Waiting (C_render 0 example_image))"
    by (simp only: exec_append example_setup_run option.case) blast
qed

subsection \<open>The stored render result\<close>

lemma renderResult_step:
  assumes "step e l s1 = Some s2"
    and "renderResult (impl s2) \<noteq> renderResult (impl s1)"
  shows "mutex (impl s1) \<noteq> None \<and> waitCondition (impl s1) \<noteq> None \<and>
         ((l = Dispatch \<and> (\<exists>time img q. queue s1 = EvRender time img # q)) \<or>
          (\<exists>time img. l = Call Owner (C_render time img)))"
proof (cases l)
  case (Call t cl)
  with assms show ?thesis
    by (cases cl)
       (auto simp: step_def member_defs onUIThread_def callable_def Let_def
             split: if_splits option.splits prod.splits pc.splits)
next
  case (Wait t)
  with assms show ?thesis
    by (auto simp: step_def split: if_splits pc.splits)
next
  case (Resume t)
  with assms show ?thesis
    by (auto simp: step_def leave_def return_def split: if_splits pc.splits)
next
  case Dispatch
  with assms show ?thesis
    by (auto simp: step_def member_defs initializeInvokable_def Let_def
             split: if_splits option.splits prod.splits pc.splits list.splits event.splits)
next
  case (Emit sig b)
  with assms show ?thesis
    by (auto simp: step_def member_defs Let_def
             split: if_splits option.splits pc.splits)
qed

lemma fast_path_render:
  assumes "mutex (impl s) = None \<or> waitCondition (impl s) = None"
    and "content (impl s) = Some c" "\<not> crashed s" "\<not> deleted s" "callable (pcs s Owner)"
  shows "step e (Call Owner (C_render time img)) s =
     Some (s\<lparr>impl := (impl s)\<lparr>content := Some (c\<lparr>contentSize := (width img, height img)\<rparr>)\<rparr>,
             trace := trace s @ [SetContentSize (width img, height img), RenderContent time img],
             pcs := (pcs s)(Owner := Done (RBool (renderResult (impl s))))\<rparr>)"
  using assms
  by (auto simp: step_def member_defs onUIThread_def Let_def split: option.splits)

lemma example_ready_idle:
  "mutex (impl example_ready) = None \<and> waitCondition (impl example_ready) = None \<and>
   content (impl example_ready) = Some example_loaded \<and>
   \<not> crashed example_ready \<and> \<not> deleted example_ready \<and> callable (pcs example_ready Owner)"
  by (simp add: example_ready_def callable_def)

lemma example_ready_for_worker:
  "\<not> crashed example_ready \<and> \<not> deleted example_ready \<and> queue example_ready = [] \<and>
   content (impl example_ready) = Some example_loaded \<and>
   callable (pcs example_ready (Worker 0)) \<and> callable (pcs example_ready Owner) \<and>
   \<not> onUIThread (Worker 0)"
  by (simp add: example_ready_def callable_def onUIThread_def)

lemma example_render_stores:
  "\<exists>s1 s2. exec example_env [Call (Worker 0) (C_render 0 example_image), Wait (Worker 0)]
              example_ready = Some s1 \<and>
           step example_env Dispatch s1 = Some s2 \<and>
           renderResult (impl s2) \<noteq> renderResult (impl s1)"
  by (simp add: example_ready_def example_loaded_def step_def member_defs example_defs Let_def)

lemma renderResult_stored:
  assumes "step e l s = Some s1"
  shows "renderResult (impl s1) =
           (case stored e l s of None \<Rightarrow> renderResult (impl s) | Some v \<Rightarrow> v)"
proof (cases l)
  case (Call t cl)
  with assms show ?thesis
    by (cases cl)
       (auto simp: stored_def step_def member_defs onUIThread_def callable_def Let_def
             split: if_splits option.splits prod.splits pc.splits)
next
  case (Wait t)
  with assms show ?thesis
    by (auto simp: stored_def step_def split: if_splits pc.splits option.splits)
next
  case (Resume t)
  with assms show ?thesis
    by (auto simp: stored_def step_def leave_def return_def
             split: if_splits pc.splits option.splits)
next
  case Dispatch
  with assms show ?thesis
    by (auto simp: stored_def step_def member_defs initializeInvokable_def Let_def
             split: if_splits option.splits prod.splits pc.splits list.splits event.splits)
next
  case (Emit sig b)
  with assms show ?thesis
    by (auto simp: stored_def step_def member_defs Let_def
             split: if_splits option.splits pc.splits)
qed

lemma renderResult_exec:
  "exec e ls s = Some s' \<Longrightarrow>
   renderResult (impl s') = last (renderResult (impl s) # stores e ls s)"
proof (induction ls arbitrary: s)
  case Nil
  then show ?case by simp
next
  case (Cons l ls)
  then obtain s1 where st: "step e l s = Some s1" and ex: "exec e ls s1 = Some s'"
    by (auto split: option.splits)
  from Cons.IH[OF ex] renderResult_stored[OF st] st show ?case
    by (cases "stored e l s") (simp_all add: last_append)
qed

lemma example_setup_stores: "stores example_env example_setup fresh = []"
  by (simp add: example_setup_def stored_def step_def member_defs example_defs Let_def)

lemma example_marshaled_stores:
  "stores example_env
     [Call (Worker 0) (C_render 0 example_image), Wait (Worker 0), Dispatch, Resume (Worker 0)]
     example_ready = [True]"
  by (simp add: example_ready_def example_loaded_def stored_def step_def member_defs
        example_defs Let_def)

lemma example_owner_store_run:
  "\<exists>s. exec example_env example_owner_store example_ready = Some s \<and>
        mutex (impl s) = None \<and> waitCondition (impl s) = None \<and>
        (\<exists>s'. step example_env (Call Owner (C_render 1 example_image)) s = Some s' \<and>
              pcs s' Owner = Done (RBool True))"
  by (simp add: example_owner_store_def example_ready_def example_loaded_def step_def
        member_defs example_defs Let_def)

text \<open>
  Claim C10, as amended. With the \<open>mutex\<close> and \<open>waitCondition\<close> fields null,
  \<open>renderComplete\<close> changes nothing: it does not store its argument and wakes
  nobody. So \<open>render\<close> called on the UI thread of an object with no call in flight
  sets the size, asks the content to render, and returns the \<open>renderResult\<close> field
  as it was. The field is false on construction and is written by exactly the
  executions of \<open>renderInvokable\<close> that find both fields set: the delivery of a
  marshaled \<open>render\<close>, and a \<open>render\<close> on the UI thread made while some worker's
  call, of any method, is in flight. After any run, the field holds the value
  stored last along the run, or its initial value if none was stored; and that is
  what a \<open>render\<close> on the UI thread of an object with no call in flight returns:
  false on an object on which nothing was stored, and after a marshaled \<open>render\<close>
  run alone what \<open>renderContent\<close> returned for it.
\<close>

theorem renderComplete_without_caller:
  "(mutex (impl s) = None \<and> waitCondition (impl s) = None \<longrightarrow>
      renderComplete res s = Some s) \<and>
   (mutex (impl s) = None \<and> waitCondition (impl s) = None \<and> content (impl s) = Some c \<and>
    \<not> crashed s \<and> \<not> deleted s \<and> callable (pcs s Owner) \<longrightarrow>
      (\<exists>s'. step e (Call Owner (C_render time img)) s = Some s' \<and>
            pcs s' = (pcs s)(Owner := Done (RBool (renderResult (impl s)))) \<and>
            renderResult (impl s') = renderResult (impl s) \<and>
            appended s s' = [SetContentSize (width img, height img), RenderContent time img] \<and>
            queue s' = queue s \<and> \<not> crashed s')) \<and>
   renderResult EffectsImpl_ctor = False \<and>
   (\<forall>l s1 s2.
      step e l s1 = Some s2 \<and> renderResult (impl s2) \<noteq> renderResult (impl s1) \<longrightarrow>
      mutex (impl s1) \<noteq> None \<and> waitCondition (impl s1) \<noteq> None \<and>
      ((l = Dispatch \<and> (\<exists>time img q. queue s1 = EvRender time img # q)) \<or>
       (\<exists>time img. l = Call Owner (C_render time img)))) \<and>
   (\<not> crashed s \<and> \<not> deleted s \<and> queue s = [] \<and> content (impl s) = Some c \<and>
    callable (pcs s t) \<and> callable (pcs s Owner) \<and> \<not> onUIThread t \<longrightarrow>
      (\<exists>s'. exec e [Call t (C_render time img), Wait t, Dispatch, Resume t,
                    Call Owner (C_render time2 img2)] s = Some s' \<and>
            pcs s' Owner =
              Done (RBool (renderContent e
                      (c\<lparr>contentSize := (width img, height img)\<rparr>) time img)))) \<and>
   (\<forall>ls s'.
      exec e ls s = Some s' \<longrightarrow>
      renderResult (impl s') = last (renderResult (impl s) # stores e ls s)) \<and>
   (\<forall>ls s' c'.
      exec e ls fresh = Some s' \<and>
      mutex (impl s') = None \<and> waitCondition (impl s') = None \<and> content (impl s') = Some c' \<and>
      \<not> crashed s' \<and> \<not> deleted s' \<and> callable (pcs s' Owner) \<longrightarrow>
      (\<exists>s''. step e (Call Owner (C_render time img)) s' = Some s'' \<and>
             pcs s'' Owner = Done (RBool (last (False # stores e ls fresh)))))"
proof (intro conjI allI impI)
  assume "mutex (impl s) = None \<and> waitCondition (impl s) = None"
  then show "renderComplete res s = Some s"
    by (simp add: renderComplete_def)
next
  assume a: "mutex (impl s) = None \<and> waitCondition (impl s) = None \<and>
    content (impl s) = Some c \<and> \<not> crashed s \<and> \<not> deleted s \<and> callable (pcs s Owner)"
  then have "step e (Call Owner (C_render time img)) s =
     Some (s\<lparr>impl := (impl s)\<lparr>content := Some (c\<lparr>contentSize := (width img, height img)\<rparr>)\<rparr>,
             trace := trace s @ [SetContentSize (width img, height img), RenderContent time img],
             pcs := (pcs s)(Owner := Done (RBool (renderResult (impl s))))\<rparr>)"
    by (intro fast_path_render) simp_all
  moreover from a have "\<not> crashed s" by simp
  ultimately show "\<exists>s'. step e (Call Owner (C_render time img)) s = Some s' \<and>
            pcs s' = (pcs s)(Owner := Done (RBool (renderResult (impl s)))) \<and>
            renderResult (impl s') = renderResult (impl s) \<and>
            appended s s' = [SetContentSize (width img, height img), RenderContent time img] \<and>
            queue s' = queue s \<and> \<not> crashed s'"
    by (simp add: appended_def)
next
  show "renderResult EffectsImpl_ctor = False"
    by (simp add: EffectsImpl_ctor_def)
next
  fix l and s1 s2 :: sys
  assume "step e l s1 = Some s2 \<and> renderResult (impl s2) \<noteq> renderResult (impl s1)"
  then have r: "mutex (impl s1) \<noteq> None \<and> waitCondition (impl s1) \<noteq> None \<and>
         ((l = Dispatch \<and> (\<exists>time img q. queue s1 = EvRender time img # q)) \<or>
          (\<exists>time img. l = Call Owner (C_render time img)))"
    using renderResult_step[of e l s1 s2] by simp
  from r show "mutex (impl s1) \<noteq> None" by simp
  from r show "waitCondition (impl s1) \<noteq> None" by simp
  from r show "(l = Dispatch \<and> (\<exists>time img q. queue s1 = EvRender time img # q)) \<or>
          (\<exists>time img. l = Call Owner (C_render time img))" by simp
next
  assume a: "\<not> crashed s \<and> \<not> deleted s \<and> queue s = [] \<and> content (impl s) = Some c \<and>
    callable (pcs s t) \<and> callable (pcs s Owner) \<and> \<not> onUIThread t"
  then have b: "\<not> crashed s" "\<not> deleted s" "queue s = []" "content (impl s) = Some c"
    "callable (pcs s t)" "\<not> onUIThread t" and o: "callable (pcs s Owner)"
    by simp_all
  define c1 where "c1 = c\<lparr>contentSize := (width img, height img)\<rparr>"
  define s4 where "s4 = leave t (C_render time img)
     (wakeAll t
       (post (EvRender time img) (publish t (C_render time img) s)
        \<lparr>pcs := (pcs (post (EvRender time img) (publish t (C_render time img) s)))
                  (t := Waiting (C_render time img)),
         queue := [],
         impl := (impl (post (EvRender time img) (publish t (C_render time img) s)))
                   \<lparr>content := Some c1, renderResult := renderContent e c1 time img\<rparr>,
         trace := trace (post (EvRender time img) (publish t (C_render time img) s)) @
                    [SetContentSize (width img, height img), RenderContent time img]\<rparr>))"
  note run = marshaled_render_run[where e=e and time=time and img=img, OF b]
  have e4: "exec e [Call t (C_render time img), Wait t, Dispatch, Resume t] s = Some s4"
    using run(1,4,7,10) by (simp add: s4_def c1_def)
  from b o have t: "t \<noteq> Owner" by (simp add: onUIThread_def)
  have q4: "mutex (impl s4) = None \<or> waitCondition (impl s4) = None"
    "content (impl s4) = Some c1" "\<not> crashed s4" "\<not> deleted s4" "callable (pcs s4 Owner)"
    "renderResult (impl s4) = renderContent e c1 time img"
    using b o t
    by (simp_all add: s4_def publish_def post_def wakeAll_def emit_action_def leave_def
          return_def result_of_def)
  note f = fast_path_render[OF q4(1-5), of e time2 img2]
  have "exec e [Call t (C_render time img), Wait t, Dispatch, Resume t,
                Call Owner (C_render time2 img2)] s =
        exec e [Call Owner (C_render time2 img2)] s4"
    using exec_append[of e "[Call t (C_render time img), Wait t, Dispatch, Resume t]"
        "[Call Owner (C_render time2 img2)]" s] e4
    by simp
  with f q4(6)
  show "\<exists>s'. exec e [Call t (C_render time img), Wait t, Dispatch, Resume t,
                    Call Owner (C_render time2 img2)] s = Some s' \<and>
            pcs s' Owner =
              Done (RBool (renderContent e
                      (c\<lparr>contentSize := (width img, height img)\<rparr>) time img))"
    by (simp add: c1_def)
next
  fix ls and s' :: sys
  assume "exec e ls s = Some s'"
  then show "renderResult (impl s') = last (renderResult (impl s) # stores e ls s)"
    by (rule renderResult_exec)
next
  fix ls and s' :: sys and c' :: Content
  assume a: "exec e ls fresh = Some s' \<and>
      mutex (impl s') = None \<and> waitCondition (impl s') = None \<and> content (impl s') = Some c' \<and>
      \<not> crashed s' \<and> \<not> deleted s' \<and> callable (pcs s' Owner)"
  then have "renderResult (impl s') = last (False # stores e ls fresh)"
    using renderResult_exec[of e ls fresh s'] by (simp add: fresh_def EffectsImpl_ctor_def)
  moreover from a have "step e (Call Owner (C_render time img)) s' =
     Some (s'\<lparr>impl := (impl s')\<lparr>content := Some (c'\<lparr>contentSize := (width img, height img)\<rparr>)\<rparr>,
             trace := trace s' @ [SetContentSize (width img, height img), RenderContent time img],
             pcs := (pcs s')(Owner := Done (RBool (renderResult (impl s'))))\<rparr>)"
    by (intro fast_path_render) simp_all
  ultimately
  show "\<exists>s''. step e (Call Owner (C_render time img)) s' = Some s'' \<and>
             pcs s'' Owner = Done (RBool (last (False # stores e ls fresh)))"
    by simp
qed

theorem renderComplete_without_caller_witness:
  "mutex (impl example_ready) = None \<and> waitCondition (impl example_ready) = None \<and>
   content (impl example_ready) = Some example_loaded \<and>
   \<not> crashed example_ready \<and> \<not> deleted example_ready \<and> queue example_ready = [] \<and>
   callable (pcs example_ready Owner) \<and> callable (pcs example_ready (Worker 0)) \<and>
   \<not> onUIThread (Worker 0) \<and>
   renderComplete True example_ready = Some example_ready \<and>
   (\<exists>s'. step example_env (Call Owner (C_render 0 example_image)) example_ready = Some s' \<and>
         pcs s' Owner = Done (RBool False) \<and> renderResult (impl s') = False) \<and>
   (\<exists>s1 s2. exec example_env [Call (Worker 0) (C_render 0 example_image), Wait (Worker 0)]
              example_ready = Some s1 \<and>
           step example_env Dispatch s1 = Some s2 \<and>
           renderResult (impl s2) \<noteq> renderResult (impl s1) \<and>
           mutex (impl s1) \<noteq> None \<and> waitCondition (impl s1) \<noteq> None) \<and>
   (\<exists>s'. exec example_env
           [Call (Worker 0) (C_render 0 example_image), Wait (Worker 0), Dispatch,
            Resume (Worker 0), Call Owner (C_render 1 example_image)] example_ready = Some s' \<and>
         pcs s' Owner = Done (RBool True)) \<and>
   (\<exists>s'. exec example_env
           [Call (Worker 0) (C_render 0 example_image), Wait (Worker 0), Dispatch,
            Resume (Worker 0)] example_ready = Some s' \<and>
         renderResult (impl s') = True) \<and>
   exec example_env example_setup fresh = Some example_ready \<and>
   (\<exists>s''. step example_env (Call Owner (C_render 0 example_image)) example_ready = Some s'' \<and>
          pcs s'' Owner = Done (RBool False))"
proof -
  note T = renderComplete_without_caller[of example_ready True example_loaded example_env
      0 example_image "Worker 0" 1 example_image]
  have i2: "mutex (impl example_ready) = None \<and> waitCondition (impl example_ready) = None"
    using example_ready_idle by simp
  note a = T[THEN conjunct1, THEN mp, OF i2]
  from T[THEN conjunct2, THEN conjunct1, THEN mp, OF example_ready_idle]
  have b: "\<exists>s'. step example_env (Call Owner (C_render 0 example_image)) example_ready = Some s' \<and>
         pcs s' Owner = Done (RBool False) \<and> renderResult (impl s') = False"
    by (auto simp: example_ready_def)
  from example_render_stores obtain s1 s2 where
    r: "exec example_env [Call (Worker 0) (C_render 0 example_image), Wait (Worker 0)]
              example_ready = Some s1"
      "step example_env Dispatch s1 = Some s2 \<and>
       renderResult (impl s2) \<noteq> renderResult (impl s1)"
    by blast
  from T[THEN conjunct2, THEN conjunct2, THEN conjunct2, THEN conjunct1, THEN spec, THEN spec,
      THEN spec, THEN mp, OF r(2)]
  have "mutex (impl s1) \<noteq> None \<and> waitCondition (impl s1) \<noteq> None"
    by simp
  with r have c: "\<exists>s1 s2. exec example_env [Call (Worker 0) (C_render 0 example_image), Wait (Worker 0)]
              example_ready = Some s1 \<and>
           step example_env Dispatch s1 = Some s2 \<and>
           renderResult (impl s2) \<noteq> renderResult (impl s1) \<and>
           mutex (impl s1) \<noteq> None \<and> waitCondition (impl s1) \<noteq> None"
    by blast
  from T[THEN conjunct2, THEN conjunct2, THEN conjunct2, THEN conjunct2, THEN conjunct1,
      THEN mp, OF example_ready_for_worker]
  have d: "\<exists>s'. exec example_env
           [Call (Worker 0) (C_render 0 example_image), Wait (Worker 0), Dispatch,
            Resume (Worker 0), Call Owner (C_render 1 example_image)] example_ready = Some s' \<and>
         pcs s' Owner = Done (RBool True)"
    by (simp add: example_env_def)
  from example_ready_for_worker
  have "\<exists>s'. exec example_env
           [Call (Worker 0) (C_render 0 example_image), Wait (Worker 0), Dispatch,
            Resume (Worker 0)] example_ready = Some s'"
    using marshaled_render_run[of example_ready example_loaded "Worker 0" example_env 0
        example_image]
    by simp
  then obtain s4 where r4: "exec example_env
           [Call (Worker 0) (C_render 0 example_image), Wait (Worker 0), Dispatch,
            Resume (Worker 0)] example_ready = Some s4"
    by blast
  from T[THEN conjunct2, THEN conjunct2, THEN conjunct2, THEN conjunct2, THEN conjunct2,
      THEN conjunct1, THEN spec, THEN spec, THEN mp, OF r4, unfolded example_marshaled_stores]
  have "renderResult (impl s4) = True"
    by simp
  with r4 have f: "\<exists>s'. exec example_env
           [Call (Worker 0) (C_render 0 example_image), Wait (Worker 0), Dispatch,
            Resume (Worker 0)] example_ready = Some s' \<and>
         renderResult (impl s') = True"
    by blast
  from example_setup_run example_ready_idle
  have "exec example_env example_setup fresh = Some example_ready \<and>
      mutex (impl example_ready) = None \<and> waitCondition (impl example_ready) = None \<and>
      content (impl example_ready) = Some example_loaded \<and>
      \<not> crashed example_ready \<and> \<not> deleted example_ready \<and> callable (pcs example_ready Owner)"
    by simp
  from T[THEN conjunct2, THEN conjunct2, THEN conjunct2, THEN conjunct2, THEN conjunct2,
      THEN conjunct2, THEN spec, THEN spec, THEN spec, THEN mp, OF this]
  have g: "\<exists>s''. step example_env (Call Owner (C_render 0 example_image)) example_ready = Some s'' \<and>
          pcs s'' Owner = Done (RBool False)"
    by (simp add: example_setup_stores)
  from example_ready_idle example_ready_for_worker a b c d f example_setup_run g
  show ?thesis by blast
qed

text \<open>
  Claim C10 as stated fails in its last sentence. On an initialized object on
  which no \<open>render\<close> was ever marshaled, a worker calls \<open>reload\<close>; while it is
  blocked the UI thread calls \<open>render\<close>, whose \<open>renderComplete\<close> finds the worker's
  record published, stores true and wakes the worker. A later \<open>render\<close> on the UI
  thread, made with both fields null, returns true and not false.
\<close>

theorem fast_path_render_returns_owner_store:
  "\<not> list_ex marshaled_render (example_setup @ example_owner_store) \<and>
   (\<exists>s. exec example_env (example_setup @ example_owner_store) fresh = Some s \<and>
        mutex (impl s) = None \<and> waitCondition (impl s) = None \<and>
        (\<exists>s'. step example_env (Call Owner (C_render 1 example_image)) s = Some s' \<and>
              pcs s' Owner = Done (RBool True)))"
proof
  show "\<not> list_ex marshaled_render (example_setup @ example_owner_store)"
    by (simp add: example_setup_def example_owner_store_def marshaled_render_def onUIThread_def)
  from example_owner_store_run
  show "\<exists>s. exec example_env (example_setup @ example_owner_store) fresh = Some s \<and>
        mutex (impl s) = None \<and> waitCondition (impl s) = None \<and>
        (\<exists>s'. step example_env (Call Owner (C_render 1 example_image)) s = Some s' \<and>
              pcs s' Owner = Done (RBool True))"
    by (simp only: exec_append example_setup_run option.case)
qed

subsection \<open>\<open>render\<close> on the UI thread against \<open>render\<close> from a worker\<close>

text \<open>
  Claim C2 fails on the code. On an initialized object whose content renders
  successfully, \<open>render\<close> called on the UI thread calls \<open>renderContent\<close> and returns
  false, the value \<open>renderResult\<close> was constructed with; the same call from a worker
  returns true.
\<close>

theorem fast_path_render_returns_stale_result:
  "(\<exists>s. exec example_env (example_setup @ [Call Owner (C_render 0 example_image)]) fresh =
          Some s \<and>
        pcs s Owner = Done (RBool False) \<and>
        RenderContent 0 example_image \<in> set (trace s) \<and>
        (\<exists>c. content (impl s) = Some c \<and> renderContent example_env c 0 example_image)) \<and>
   (\<exists>s. exec example_env
          (example_setup @
           [Call (Worker 1) (C_render 0 example_image), Wait (Worker 1), Dispatch,
            Resume (Worker 1)]) fresh = Some s \<and>
        pcs s (Worker 1) = Done (RBool True))"
  unfolding exec_append example_setup_run option.case
  by (simp add: example_ready_def example_loaded_def step_def member_defs example_defs Let_def)

subsection \<open>An unsupported suffix\<close>

lemma example_bad_suffix_run:
  "\<exists>s. exec example_env
          [Call (Worker 0) (C_initialize ''notes.txt'' 640 480 0 False), Wait (Worker 0),
           Dispatch] fresh = Some s \<and>
        pcs s (Worker 0) = Waiting (C_initialize ''notes.txt'' 640 480 0 False) \<and>
        content (impl s) = None \<and> queue s = [] \<and>
        trace s = [MoveToThread, Log (LogBadSuffix ''/cwd/notes.txt'')] \<and> \<not> crashed s"
  by (simp add: step_def member_defs example_defs Let_def)

text \<open>
  Claim C4 fails on the code. For a local file whose suffix is none of the three,
  \<open>initializeInvokable\<close> logs and returns without calling \<open>initializeComplete\<close>. No
  content is constructed, but the caller of \<open>initialize\<close> is left blocked in \<open>wait\<close>
  and stays blocked in every continuation of the run.
\<close>

theorem unsupported_suffix_strands_the_caller:
  "\<exists>s. exec example_env
          [Call (Worker 0) (C_initialize ''notes.txt'' 640 480 0 False), Wait (Worker 0),
           Dispatch] fresh = Some s \<and>
        pcs s (Worker 0) = Waiting (C_initialize ''notes.txt'' 640 480 0 False) \<and>
        content (impl s) = None \<and> queue s = [] \<and>
        trace s = [MoveToThread, Log (LogBadSuffix ''/cwd/notes.txt'')] \<and> \<not> crashed s \<and>
        \<not> (\<exists>ls s'. exec example_env ls s = Some s' \<and>
               pcs s' (Worker 0) \<noteq> Waiting (C_initialize ''notes.txt'' 640 480 0 False))"
proof -
  from example_bad_suffix_run obtain s where
    run: "exec example_env
          [Call (Worker 0) (C_initialize ''notes.txt'' 640 480 0 False), Wait (Worker 0),
           Dispatch] fresh = Some s"
    and obs: "pcs s (Worker 0) = Waiting (C_initialize ''notes.txt'' 640 480 0 False)"
      "content (impl s) = None" "queue s = []"
      "trace s = [MoveToThread, Log (LogBadSuffix ''/cwd/notes.txt'')]" "\<not> crashed s"
    by blast
  from obs have "stranded (Worker 0) (C_initialize ''notes.txt'' 640 480 0 False) s"
    by (simp add: stranded_def)
  from stranded_forever[OF this, of example_env] run obs show ?thesis
    by blast
qed

subsection \<open>\<open>render\<close> without a content\<close>

lemma crashed_step: "crashed s \<Longrightarrow> step e l s = None"
  by (simp add: step_def)

text \<open>
  Claim C8, as amended. \<open>render\<close> does not check that a content exists. With the
  \<open>content\<close> field null, \<open>renderInvokable\<close> dereferences it: the process crashes, on
  the UI thread's own call and on the delivery of a worker's invocation alike.
  Nothing is logged, no result is stored, the worker is still blocked in \<open>wait\<close>,
  and no step follows a crash.
\<close>

theorem render_without_content:
  "content (impl s) = None \<and> \<not> crashed s \<and> \<not> deleted s \<longrightarrow>
     renderInvokable e time img s = Some (crash s) \<and>
     (callable (pcs s Owner) \<longrightarrow>
        step e (Call Owner (C_render time img)) s = Some (crash s)) \<and>
     (queue s = [] \<and> callable (pcs s t) \<and> \<not> onUIThread t \<longrightarrow>
        exec e [Call t (C_render time img), Wait t, Dispatch] s =
          Some (crash (s\<lparr>impl := (impl s)\<lparr>mutex := Some t, waitCondition := Some t\<rparr>,
                         pcs := (pcs s)(t := Waiting (C_render time img))\<rparr>))) \<and>
     (\<forall>l s'. step e l (crash s') = None)"
  by (auto simp: step_def member_defs onUIThread_def Let_def)

theorem render_without_content_witness:
  "content (impl fresh) = None \<and> \<not> crashed fresh \<and> \<not> deleted fresh \<and>
   callable (pcs fresh Owner) \<and> queue fresh = [] \<and> callable (pcs fresh (Worker 0)) \<and>
   \<not> onUIThread (Worker 0) \<and>
   step example_env (Call Owner (C_render 0 example_image)) fresh = Some (crash fresh) \<and>
   (\<exists>s. exec example_env
          [Call (Worker 0) (C_render 0 example_image), Wait (Worker 0), Dispatch] fresh =
          Some s \<and> crashed s \<and> pcs s (Worker 0) = Waiting (C_render 0 example_image))"
proof -
  have h: "content (impl fresh) = None \<and> \<not> crashed fresh \<and> \<not> deleted fresh"
    by (simp add: fresh_def EffectsImpl_ctor_def)
  have o: "callable (pcs fresh Owner)"
    by (simp add: fresh_def callable_def)
  have w: "queue fresh = [] \<and> callable (pcs fresh (Worker 0)) \<and> \<not> onUIThread (Worker 0)"
    by (simp add: fresh_def callable_def onUIThread_def)
  note T = render_without_content[of fresh example_env 0 example_image "Worker 0", THEN mp, OF h]
  note a = T[THEN conjunct2, THEN conjunct1, THEN mp, OF o]
  note b = T[THEN conjunct2, THEN conjunct2, THEN conjunct1, THEN mp, OF w]
  from h o w a b show ?thesis by (simp add: crash_def)
qed

text \<open>
  Claim C8 as stated fails: no error reaches the caller. On a fresh object the UI
  thread's \<open>render\<close> never returns, and a worker's \<open>render\<close> leaves the worker
  blocked; in both runs the trace is empty and the process has crashed.
\<close>

theorem render_without_content_reports_nothing:
  "(\<exists>s. step example_env (Call Owner (C_render 0 example_image)) fresh = Some s \<and>
        crashed s \<and> pcs s Owner = Idle \<and> trace s = [] \<and>
        (\<forall>l. step example_env l s = None)) \<and>
   (\<exists>s. exec example_env
          [Call (Worker 0) (C_render 0 example_image), Wait (Worker 0), Dispatch] fresh =
          Some s \<and>
        crashed s \<and> pcs s (Worker 0) = Waiting (C_render 0 example_image) \<and> trace s = [] \<and>
        (\<forall>l. step example_env l s = None))"
  by (simp add: step_def member_defs example_defs Let_def)

subsection \<open>Teardown\<close>

lemma step_not_dispatch:
  assumes "step e l s = Some s'" and "l \<noteq> Dispatch" and "\<not> deleted s"
  shows "\<not> deleted s' \<and> (\<exists>extra. queue s' = queue s @ extra) \<and>
         DeleteContent \<notin> set (appended s s')"
proof (cases l)
  case (Call t cl)
  with assms show ?thesis
    by (cases cl)
       (auto simp: step_def member_defs appended_def Let_def
             split: if_splits option.splits prod.splits pc.splits)
next
  case (Wait t)
  with assms show ?thesis
    by (auto simp: step_def appended_def split: if_splits pc.splits)
next
  case (Resume t)
  with assms show ?thesis
    by (auto simp: step_def leave_def return_def appended_def split: if_splits pc.splits)
next
  case Dispatch
  with assms show ?thesis by simp
next
  case (Emit sig b)
  with assms show ?thesis
    by (auto simp: step_def member_defs appended_def Let_def
             split: if_splits option.splits pc.splits)
qed

lemma initializeInvokable_frame:
  "queue (initializeInvokable u z n b1 b2 s) = queue s \<and>
   deleted (initializeInvokable u z n b1 b2 s) = deleted s \<and>
   DeleteContent \<notin> set (appended s (initializeInvokable u z n b1 b2 s))"
  by (simp add: initializeInvokable_def emit_action_def appended_def Let_def)

lemma renderInvokable_frame:
  "renderInvokable e time img s = Some s' \<Longrightarrow>
   queue s' = queue s \<and> deleted s' = deleted s \<and> DeleteContent \<notin> set (appended s s')"
  by (auto simp: renderInvokable_def renderComplete_def wakeAll_def emit_action_def crash_def
        appended_def Let_def split: option.splits if_splits pc.splits)

lemma reloadInvokable_frame:
  "queue (reloadInvokable s) = queue s \<and> deleted (reloadInvokable s) = deleted s \<and>
   DeleteContent \<notin> set (appended s (reloadInvokable s))"
  by (simp add: reloadInvokable_def emit_action_def crash_def appended_def split: option.splits)

lemma step_dispatch:
  assumes "step e Dispatch s = Some s'"
  shows "\<not> deleted s \<and>
         (\<exists>ev q. queue s = ev # q \<and>
            (if ev = EvDeferredDelete then s' = EffectsImpl_dtor (s\<lparr>queue := q\<rparr>)
             else queue s' = q \<and> \<not> deleted s' \<and> DeleteContent \<notin> set (appended s s')))"
proof -
  from assms obtain ev q where
    q: "queue s = ev # q" and nd: "\<not> deleted s"
    and d: "dispatch e ev (s\<lparr>queue := q\<rparr>) = Some s'"
    by (auto simp: step_def split: if_splits list.splits)
  have ap: "appended (s\<lparr>queue := q\<rparr>) s' = appended s s'"
    by (simp add: appended_def)
  have "if ev = EvDeferredDelete then s' = EffectsImpl_dtor (s\<lparr>queue := q\<rparr>)
        else queue s' = q \<and> \<not> deleted s' \<and> DeleteContent \<notin> set (appended s s')"
  proof (cases ev)
    case (EvInitialize u z n b1 b2)
    with d nd ap initializeInvokable_frame[of u z n b1 b2 "s\<lparr>queue := q\<rparr>"]
    show ?thesis by (auto simp: dispatch_def)
  next
    case (EvRender time img)
    with d nd ap renderInvokable_frame[of e time img "s\<lparr>queue := q\<rparr>" s']
    show ?thesis by (auto simp: dispatch_def)
  next
    case EvReload
    with d nd ap reloadInvokable_frame[of "s\<lparr>queue := q\<rparr>"]
    show ?thesis by (auto simp: dispatch_def)
  next
    case EvDeferredDelete
    with d show ?thesis by (simp add: dispatch_def)
  qed
  with q nd show ?thesis by blast
qed

lemma deletion_step:
  assumes "step e l s1 = Some s2"
    and "deleted s2 \<noteq> deleted s1 \<or> DeleteContent \<in> set (appended s1 s2)"
  shows "l = Dispatch \<and>
         (\<exists>q. queue s1 = EvDeferredDelete # q \<and> s2 = EffectsImpl_dtor (s1\<lparr>queue := q\<rparr>))"
proof (cases "deleted s1")
  case True
  with assms show ?thesis
    by (cases l)
       (auto simp: step_def crash_def leave_def return_def appended_def
             split: if_splits pc.splits)
next
  case False
  show ?thesis
  proof (cases "l = Dispatch")
    case True
    with assms False step_dispatch[of e s1 s2] show ?thesis
      by (auto split: if_splits)
  next
    case nd: False
    from step_not_dispatch[OF assms(1) nd False] assms(2) False show ?thesis
      by simp
  qed
qed

lemma teardown_after_queue:
  "\<not> deleted s \<Longrightarrow> queue s = q1 @ EvDeferredDelete # q2 \<Longrightarrow> EvDeferredDelete \<notin> set q1 \<Longrightarrow>
   exec e ls s = Some s' \<Longrightarrow> deleted s' \<Longrightarrow>
   length q1 < length (filter (\<lambda>l. l = Dispatch) ls)"
proof (induction ls arbitrary: s q1 q2)
  case Nil
  then show ?case by simp
next
  case (Cons l ls)
  from Cons.prems(4) obtain s1 where
    st: "step e l s = Some s1" and ex: "exec e ls s1 = Some s'"
    by (auto split: option.splits)
  show ?case
  proof (cases "l = Dispatch")
    case True
    note d = step_dispatch[OF st[unfolded True]]
    show ?thesis
    proof (cases q1)
      case Nil
      with True show ?thesis by simp
    next
      case (Cons x q1')
      with Cons.prems(2,3) d have "queue s1 = q1' @ EvDeferredDelete # q2" "\<not> deleted s1"
        "EvDeferredDelete \<notin> set q1'"
        by auto
      from Cons.IH[OF this(2) this(1) this(3) ex Cons.prems(5)] True Cons show ?thesis
        by simp
    qed
  next
    case False
    from step_not_dispatch[OF st False Cons.prems(1)] obtain extra where
      "\<not> deleted s1" "queue s1 = queue s @ extra"
      by blast
    with Cons.prems(2) have "queue s1 = q1 @ EvDeferredDelete # (q2 @ extra)" by simp
    from Cons.IH[OF \<open>\<not> deleted s1\<close> this Cons.prems(3) ex Cons.prems(5)] False
    show ?thesis by simp
  qed
qed

lemma example_teardown_run:
  "\<exists>s1 s2 s3.
     exec example_env [Call (Worker 1) (C_render 0 example_image), Wait (Worker 1)]
       example_ready = Some s1 \<and>
     \<not> deleted s1 \<and> EvDeferredDelete \<notin> set (queue s1) \<and> queue s1 = [EvRender 0 example_image] \<and>
     step example_env Dispatch (destroy (Worker 0) s1) = Some s2 \<and>
     \<not> deleted s2 \<and> pcs s2 (Worker 1) = Woken (C_render 0 example_image) \<and>
     queue s2 = [EvDeferredDelete] \<and>
     step example_env Dispatch s2 = Some s3 \<and>
     deleted s3 \<and> DeleteContent \<in> set (appended s2 s3)"
  by (simp add: example_ready_def example_loaded_def step_def member_defs example_defs
        appended_def Let_def)

text \<open>
  Claim C9. \<open>destroy\<close> only posts the deferred delete: the fields of the object,
  its content and the trace are as before, and the caller returns at once. The
  object and its content are deleted by one step only, the UI thread's delivery of
  the deferred delete. That delivery comes after the delivery of every invocation
  that was queued when \<open>destroy\<close> was called (if no deferred delete was already
  pending). The destructor discards what is still queued, and nothing is delivered
  to a deleted object.
\<close>

theorem deferred_teardown:
  "(impl (destroy t s) = impl s \<and> trace (destroy t s) = trace s \<and>
    deleted (destroy t s) = deleted s \<and> crashed (destroy t s) = crashed s \<and>
    queue (destroy t s) = queue s @ [EvDeferredDelete] \<and>
    pcs (destroy t s) = (pcs s)(t := Done RVoid)) \<and>
   (\<not> crashed s \<and> \<not> deleted s \<and> callable (pcs s t) \<longrightarrow>
      step e (Call t C_destroy) s = Some (destroy t s)) \<and>
   (\<forall>l s1 s2.
      step e l s1 = Some s2 \<and>
      (deleted s2 \<noteq> deleted s1 \<or> DeleteContent \<in> set (appended s1 s2)) \<longrightarrow>
      l = Dispatch \<and>
      (\<exists>q. queue s1 = EvDeferredDelete # q \<and> s2 = EffectsImpl_dtor (s1\<lparr>queue := q\<rparr>))) \<and>
   (\<forall>ls s'.
      \<not> deleted s \<and> EvDeferredDelete \<notin> set (queue s) \<and>
      exec e ls (destroy t s) = Some s' \<and> deleted s' \<longrightarrow>
      length (queue s) < length (filter (\<lambda>l. l = Dispatch) ls)) \<and>
   (\<forall>s1. queue (EffectsImpl_dtor s1) = [] \<and> content (impl (EffectsImpl_dtor s1)) = None \<and>
         deleted (EffectsImpl_dtor s1)) \<and>
   (\<forall>s1 sig b. deleted s1 \<longrightarrow>
      step e Dispatch s1 = None \<and> step e (Emit sig b) s1 = None)"
proof (intro conjI allI impI)
  fix l and s1 s2 :: sys
  assume "step e l s1 = Some s2 \<and>
      (deleted s2 \<noteq> deleted s1 \<or> DeleteContent \<in> set (appended s1 s2))"
  then have r: "l = Dispatch \<and>
      (\<exists>q. queue s1 = EvDeferredDelete # q \<and> s2 = EffectsImpl_dtor (s1\<lparr>queue := q\<rparr>))"
    using deletion_step[of e l s1 s2] by simp
  from r show "l = Dispatch" by simp
  from r show "\<exists>q. queue s1 = EvDeferredDelete # q \<and> s2 = EffectsImpl_dtor (s1\<lparr>queue := q\<rparr>)"
    by simp
next
  fix ls and s' :: sys
  assume a: "\<not> deleted s \<and> EvDeferredDelete \<notin> set (queue s) \<and>
      exec e ls (destroy t s) = Some s' \<and> deleted s'"
  have "queue (destroy t s) = queue s @ EvDeferredDelete # []" "deleted (destroy t s) = deleted s"
    by (simp_all add: destroy_def post_def return_def)
  with a teardown_after_queue[of "destroy t s" "queue s" "[]" e ls s']
  show "length (queue s) < length (filter (\<lambda>l. l = Dispatch) ls)"
    by simp
qed (simp_all add: destroy_def post_def return_def step_def EffectsImpl_dtor_def
       emit_action_def Let_def split: option.splits)

theorem deferred_teardown_witness:
  "\<not> crashed example_ready \<and> \<not> deleted example_ready \<and>
   callable (pcs example_ready (Worker 0)) \<and>
   step example_env (Call (Worker 0) C_destroy) example_ready =
     Some (destroy (Worker 0) example_ready) \<and>
   content (impl (destroy (Worker 0) example_ready)) = Some example_loaded \<and>
   (\<exists>s1 s2 s3.
      exec example_env [Call (Worker 1) (C_render 0 example_image), Wait (Worker 1)]
        example_ready = Some s1 \<and>
      \<not> deleted s1 \<and> EvDeferredDelete \<notin> set (queue s1) \<and>
      step example_env Dispatch (destroy (Worker 0) s1) = Some s2 \<and>
      \<not> deleted s2 \<and> pcs s2 (Worker 1) = Woken (C_render 0 example_image) \<and>
      step example_env Dispatch s2 = Some s3 \<and>
      deleted s3 \<and> DeleteContent \<in> set (appended s2 s3) \<and>
      exec example_env [Dispatch, Dispatch] (destroy (Worker 0) s1) = Some s3 \<and>
      length (queue s1) < length (filter (\<lambda>l. l = Dispatch) [Dispatch, Dispatch]) \<and>
      (\<exists>q. queue s2 = EvDeferredDelete # q \<and> s3 = EffectsImpl_dtor (s2\<lparr>queue := q\<rparr>)) \<and>
      step example_env Dispatch s3 = None)"
proof -
  have h: "\<not> crashed example_ready \<and> \<not> deleted example_ready \<and>
           callable (pcs example_ready (Worker 0))"
    by (simp add: example_ready_def callable_def)
  note a = deferred_teardown[of "Worker 0" example_ready example_env, THEN conjunct2,
      THEN conjunct1, THEN mp, OF h]
  have b: "content (impl (destroy (Worker 0) example_ready)) = Some example_loaded"
    using deferred_teardown[of "Worker 0" example_ready example_env, THEN conjunct1]
    by (simp add: example_ready_def)
  from example_teardown_run obtain s1 s2 s3 where
    r: "exec example_env [Call (Worker 1) (C_render 0 example_image), Wait (Worker 1)]
       example_ready = Some s1"
      "\<not> deleted s1" "EvDeferredDelete \<notin> set (queue s1)"
      "step example_env Dispatch (destroy (Worker 0) s1) = Some s2"
      "\<not> deleted s2" "pcs s2 (Worker 1) = Woken (C_render 0 example_image)"
      "step example_env Dispatch s2 = Some s3"
      "deleted s3" "DeleteContent \<in> set (appended s2 s3)"
    by blast
  from r(4,7) have e2: "exec example_env [Dispatch, Dispatch] (destroy (Worker 0) s1) = Some s3"
    by simp
  note T = deferred_teardown[of "Worker 0" s1 example_env]
  from r(2,3) e2 r(8)
  have c: "length (queue s1) < length (filter (\<lambda>l. l = Dispatch) [Dispatch, Dispatch])"
    by (intro T[THEN conjunct2, THEN conjunct2, THEN conjunct2, THEN conjunct1, THEN spec,
          THEN spec, THEN mp]) simp
  from r(7,9)
  have d: "\<exists>q. queue s2 = EvDeferredDelete # q \<and> s3 = EffectsImpl_dtor (s2\<lparr>queue := q\<rparr>)"
    by (intro T[THEN conjunct2, THEN conjunct2, THEN conjunct1, THEN spec, THEN spec,
          THEN spec, THEN mp, THEN conjunct2]) simp
  from r(8)
  have f: "step example_env Dispatch s3 = None"
    using T[THEN conjunct2, THEN conjunct2, THEN conjunct2, THEN conjunct2, THEN conjunct2,
        THEN spec, THEN spec, THEN spec, THEN mp, THEN conjunct1, of s3]
    by simp
  from h a b r e2 c d f show ?thesis by blast
qed

end
